theory Spec2Isabelle
  imports Main "HOL-Library.Sublist"
begin

section \<open>JavaScript values used by both services\<close>

text \<open>
  Strings are byte lists: a JavaScript string is represented by its UTF-8 encoding, so
  a well-formed string is assumed throughout. Objects used as dictionaries are maps.
  A number used in a condition is tested by truthiness: \<open>undefined\<close> and \<open>0\<close> are falsy.
\<close>

definition truthy :: "int option \<Rightarrow> bool" where
  "truthy n = (case n of None \<Rightarrow> False | Some k \<Rightarrow> k \<noteq> 0)"

section \<open>The retry executor: UtilService.retryOnException\<close>

text \<open>
  What an operation rejects with: \<open>undefined\<close> or \<open>null\<close>, of which no property can be
  read, or any other value, whose \<open>message\<close> can be read and printed.
\<close>

datatype 'e thrown = Nullish | Thrown 'e

text \<open>
  What \<open>retryOnException\<close> raises: the error of the operation itself (\<open>throw e\<close>), or the
  TypeError of reading \<open>e.message\<close> of \<open>undefined\<close> or \<open>null\<close> for the retry notice.
\<close>

datatype 'e raised = Original "'e thrown" | MessageOfNullish

text \<open>
  \<open>UtilRetryParams\<close> without its \<open>method\<close>, which has an effect and is passed on its own.
\<close>

record 'e UtilRetryParams =
  name :: "string option"
  retries :: "int option"
  timeout :: "int option"
  delay :: "int option"
  breakIf :: "('e thrown \<Rightarrow> bool) option"

text \<open>
  The three tests of the \<open>catch\<close> block, in the order of the source:
  \<^verbatim>\<open>if (params.retries && tentative > params.retries) throw e;
  else if (params.timeout && elapsed > params.timeout) throw e;
  else if (params.breakIf?.(e)) throw e;\<close>
\<close>

definition throws :: "'e UtilRetryParams \<Rightarrow> int \<Rightarrow> int \<Rightarrow> 'e thrown \<Rightarrow> bool" where
  "throws P tentative elapsed e =
     (if truthy (retries P) \<and> (case retries P of Some r \<Rightarrow> tentative > r | None \<Rightarrow> False) then True
      else if truthy (timeout P) \<and> (case timeout P of Some t \<Rightarrow> elapsed > t | None \<Rightarrow> False) then True
      else (case breakIf P of Some f \<Rightarrow> f e | None \<Rightarrow> False))"

text \<open>
  The \<open>while (true)\<close> loop. \<open>method n\<close> is what the \<open>n\<close>-th invocation of the operation
  does (\<open>Inl e\<close>: it rejects with \<open>e\<close>; \<open>Inr r\<close>: it returns \<open>r\<close>), \<open>clock n\<close> is the elapsed
  time read in the \<open>catch\<close> block after the \<open>n\<close>-th invocation (the halt between attempts
  shows there), \<open>calls\<close> counts the invocations made so far. After the three tests the
  block increments \<open>tentative\<close> and builds the retry notice from \<open>e.message\<close> (line 85):
  for \<open>undefined\<close> or \<open>null\<close> that read raises a TypeError, which leaves the loop. The
  logger and the halt raise nothing, and \<open>breakIf\<close> returns a truth value. The loop has no bound of its own: a run that never
  leaves it is the value \<open>None\<close>. A result \<open>Some (n, Inl x)\<close> is \<open>x\<close> raised after \<open>n\<close>
  invocations, \<open>Some (n, Inr r)\<close> is \<open>return r\<close>.
\<close>

partial_function (option) retry_loop ::
  "(int \<Rightarrow> int \<Rightarrow> 'e thrown \<Rightarrow> bool) \<Rightarrow> (nat \<Rightarrow> 'e thrown + 'a) \<Rightarrow> (nat \<Rightarrow> int) \<Rightarrow> int \<Rightarrow> nat
     \<Rightarrow> (nat \<times> ('e raised + 'a)) option"
where
  "retry_loop stop method clock tentative calls =
     (case method (Suc calls) of
        Inr result \<Rightarrow> Some (Suc calls, Inr result)
      | Inl e \<Rightarrow>
          (if stop tentative (clock (Suc calls)) e then Some (Suc calls, Inl (Original e))
           else (case e of
                   Nullish \<Rightarrow> Some (Suc calls, Inl MessageOfNullish)
                 | Thrown x \<Rightarrow> retry_loop stop method clock (tentative + 1) (Suc calls))))"

definition retryOnException ::
  "'e UtilRetryParams \<Rightarrow> (nat \<Rightarrow> 'e thrown + 'a) \<Rightarrow> (nat \<Rightarrow> int)
     \<Rightarrow> (nat \<times> ('e raised + 'a)) option" where
  "retryOnException P method clock = retry_loop (throws P) method clock 1 0"

section \<open>The HTTP client: HttpsService\<close>

subsection \<open>Data\<close>

text \<open>
  Modelled from the spec: the enum \<open>HttpsReturnType\<close> (https.enum is not among the
  sources) has the two return modes of the data model, and both are truthy values.
\<close>

datatype HttpsReturnType = DATA | FULL

text \<open>A request body: an object, or a string (as the one a form is turned into).\<close>

datatype 'v body = Obj "string \<Rightarrow> 'v option" | Str string

text \<open>
  \<open>HttpsServiceOptions\<close>, the argument of \<open>setupInstance\<close> (fields prefixed \<open>o_\<close>: the
  service keeps fields of the same names).
\<close>

record 'v HttpsServiceOptions =
  o_defaultValidator :: "(int \<Rightarrow> bool) option"
  o_defaultReturnType :: "HttpsReturnType option"
  o_defaultTimeout :: "int option"
  o_baseUrl :: "string option"
  o_baseData :: "(string \<Rightarrow> 'v option) option"
  o_baseHeaders :: "(string \<Rightarrow> string option) option"
  o_randomizeUserAgent :: bool
  o_ignoreHttpsErrors :: bool

text \<open>
  The private fields of a service on which \<open>setupInstance\<close> has run. \<open>instance_timeout\<close>
  is \<open>this.instance.defaults.timeout\<close>. A service handle is a value of type
  \<open>'v HttpsService option\<close>: \<open>None\<close> while \<open>this.instance\<close> is undefined.
\<close>

record 'v HttpsService =
  defaultValidator :: "int \<Rightarrow> bool"
  defaultReturnType :: HttpsReturnType
  baseUrl :: "string option"
  baseData :: "(string \<Rightarrow> 'v option) option"
  baseHeaders :: "string \<Rightarrow> string option"
  instance_timeout :: int
  instance_rejectUnauthorized :: bool

text \<open>
  \<open>HttpsRequestParams\<close>. \<open>http_method\<close> is the field \<open>method\<close> and \<open>req_timeout\<close> the field
  \<open>timeout\<close>. \<open>replacements\<close> lists the keys in the order \<open>for ... in\<close> enumerates them,
  with the string each value's \<open>toString()\<close> gives. The method and the url are strings,
  as the four shorthands set them; the values of \<open>data\<close>, \<open>form\<close> and \<open>params\<close> are of any
  one type \<open>'v\<close>. \<open>transformParams\<close> rewrites the caller's object in place: the descriptor
  it is given and the composed request it leaves are two states of one object, and so
  of one type (\<open>descriptor\<close> and \<open>resolved\<close> name the two roles).
\<close>

record 'v HttpsRequestParams =
  http_method :: string
  url :: string
  headers :: "(string \<Rightarrow> string option) option"
  data :: "'v body option"
  form :: "(string \<Rightarrow> 'v option) option"
  params :: "(string \<Rightarrow> 'v option) option"
  replacements :: "(string \<times> string) list option"
  req_timeout :: "int option"
  validateStatus :: "(int \<Rightarrow> bool) option"
  returnType :: "HttpsReturnType option"

type_synonym 'v descriptor = "'v HttpsRequestParams"
type_synonym 'v resolved = "'v HttpsRequestParams"

record 'v response =
  res_status :: int
  res_headers :: "string \<Rightarrow> string option"
  res_data :: 'v

text \<open>The object given to \<open>InternalServerErrorException\<close> when a request fails.\<close>

record 'v error_object =
  err_message :: string
  err_config :: "'v descriptor"
  err_status :: "int option"
  err_headers :: "(string \<Rightarrow> string option) option"
  err_data :: "'v option"

datatype 'v exception =
    InternalServerError_message string
  | InternalServerError_object "'v error_object"
  | RegExpSyntaxError string
  | TypeError string

definition NotConfigured :: "'v exception" where
  "NotConfigured = InternalServerError_message ''https service must be configured with this.setupInstance()''"

datatype 'v result = Data 'v | Full "'v response"

text \<open>
  What the race of the transport call against the timer gives.
  Modelled from the spec: \<open>AppProvider.wait\<close> (not among the sources) resolves with no
  value once the timeout has elapsed, so \<open>res\<close> is undefined when the timer wins.
\<close>

datatype 'v outcome = TimerWon | Responded "'v response" | Raised string

text \<open>
  The library and language functions the composer calls: \<open>qs.stringify\<close>;
  \<open>url.replace(new RegExp(source, 'g'), value)\<close> for a source with regular-expression
  metacharacters (\<open>None\<close>: the constructor raises a SyntaxError); and the entries that
  spreading a string into an object gives (\<open>{...s}\<close>: its characters under their indices).
\<close>

record 'v libs =
  qs_stringify :: "(string \<Rightarrow> 'v option) \<Rightarrow> string"
  regexp_replace :: "string \<Rightarrow> string \<Rightarrow> string \<Rightarrow> string option"
  spread_string :: "string \<Rightarrow> string \<Rightarrow> 'v option"

subsection \<open>setupInstance\<close>

text \<open>
  \<open>HTTPS_DEFAULT_TIMEOUT\<close> is the setting of that name and \<open>userAgent\<close> the string
  \<open>new UserAgent().toString()\<close> gives at this call.
\<close>

definition setupInstance :: "int \<Rightarrow> string \<Rightarrow> 'v HttpsServiceOptions \<Rightarrow> 'v HttpsService" where
  "setupInstance HTTPS_DEFAULT_TIMEOUT userAgent p =
     \<lparr> defaultValidator = (case o_defaultValidator p of Some f \<Rightarrow> f | None \<Rightarrow> (\<lambda>s. s < 400)),
       defaultReturnType = (case o_defaultReturnType p of Some t \<Rightarrow> t | None \<Rightarrow> DATA),
       baseUrl = o_baseUrl p,
       baseData = o_baseData p,
       baseHeaders =
         (let h = (case o_baseHeaders p of Some h \<Rightarrow> h | None \<Rightarrow> Map.empty)
          in if o_randomizeUserAgent p then h(''user-agent'' \<mapsto> userAgent) else h),
       instance_timeout =
         (case o_defaultTimeout p of
            Some t \<Rightarrow> if t \<noteq> 0 then t else HTTPS_DEFAULT_TIMEOUT
          | None \<Rightarrow> HTTPS_DEFAULT_TIMEOUT),
       instance_rejectUnauthorized = (\<not> o_ignoreHttpsErrors p) \<rparr>"

subsection \<open>transformParams\<close>

text \<open>
  Lines 117 to 126: the headers default, then url, headers and data joined with their
  bases. A body that is a non-empty string is truthy and is spread like an object.
\<close>

definition mergeData :: "'v libs \<Rightarrow> (string \<Rightarrow> 'v option) \<Rightarrow> 'v body \<Rightarrow> 'v body" where
  "mergeData L bd d =
     (case d of
        Obj m \<Rightarrow> Obj (bd ++ m)
      | Str s \<Rightarrow> if s = [] then Str s else Obj (bd ++ spread_string L s))"

definition joinBases :: "'v libs \<Rightarrow> 'v HttpsService \<Rightarrow> 'v descriptor \<Rightarrow> 'v descriptor" where
  "joinBases L this p =
     (let h = (case headers p of Some h \<Rightarrow> h | None \<Rightarrow> Map.empty);
          u = (case baseUrl this of
                 Some b \<Rightarrow> if b \<noteq> [] then b @ url p else url p
               | None \<Rightarrow> url p);
          p1 = p\<lparr> url := u, headers := Some (baseHeaders this ++ h) \<rparr>
      in case baseData this of
           None \<Rightarrow> p1
         | Some bd \<Rightarrow>
             p1\<lparr> data := map_option (mergeData L bd) (data p1),
                 form := map_option (\<lambda>f. bd ++ f) (form p1),
                 params := map_option (\<lambda>q. bd ++ q) (params p1) \<rparr>)"

text \<open>Lines 128 to 132: a form is stringified into the body and sets its header.\<close>

definition stringifyForm :: "'v libs \<Rightarrow> 'v descriptor \<Rightarrow> 'v exception + 'v resolved" where
  "stringifyForm L p =
     (case form p of
        None \<Rightarrow> Inr p
      | Some f \<Rightarrow>
          (case headers p of
             None \<Rightarrow> Inl (TypeError ''Cannot set properties of undefined'')
           | Some h \<Rightarrow>
               Inr (p\<lparr> headers := Some (h(''content-type'' \<mapsto> ''application/x-www-form-urlencoded'')),
                       data := Some (Str (qs_stringify L f)) \<rparr>)))"

text \<open>
  \<open>encodeURIComponent\<close>: every byte of the UTF-8 form that is not an unreserved
  character becomes \<open>%XX\<close>, in upper-case hexadecimal.
\<close>

definition unreservedChars :: string where
  "unreservedChars =
     ''ABCDEFGHIJKLMNOPQRSTUVWXYZabcdefghijklmnopqrstuvwxyz0123456789-_.!~*()'' @ [CHR 0x27]"

definition hexDigit :: "nat \<Rightarrow> char" where
  "hexDigit n = ''0123456789ABCDEF'' ! (n mod 16)"

definition percentEncode :: "char \<Rightarrow> string" where
  "percentEncode c = [CHR ''%'', hexDigit (of_char c div 16), hexDigit (of_char c mod 16)]"

definition encodeURIComponent :: "string \<Rightarrow> string" where
  "encodeURIComponent s =
     concat (map (\<lambda>c. if c \<in> set unreservedChars then [c] else percentEncode c) s)"

text \<open>
  \<open>s.replace(re, v)\<close> for a global regular expression \<open>re\<close> whose source \<open>pat\<close> is a
  non-empty literal and a value \<open>v\<close> without \<open>$\<close>: the matches are found from left to
  right, each search resuming after the previous match.
\<close>

function replaceAll :: "string \<Rightarrow> string \<Rightarrow> string \<Rightarrow> string" where
  "replaceAll pat v [] = []"
| "replaceAll pat v (c # cs) =
     (if pat \<noteq> [] \<and> prefix pat (c # cs)
      then v @ replaceAll pat v (drop (length pat) (c # cs))
      else c # replaceAll pat v cs)"
  by pat_completeness auto
termination
  by (relation "measure (\<lambda>(pat, v, s). length s)") auto

text \<open>The characters that are not literal in the source of a regular expression.\<close>

definition regexMeta :: string where
  "regexMeta = [CHR 0x5C] @ ''^$.*+?()[]{}|''"

definition plainKey :: "string \<Rightarrow> bool" where
  "plainKey key = list_all (\<lambda>c. c \<notin> set regexMeta) key"

text \<open>One turn of the loop of lines 136 to 140.\<close>

definition replaceOne :: "'v libs \<Rightarrow> string \<Rightarrow> string \<Rightarrow> string \<Rightarrow> 'v exception + string" where
  "replaceOne L key v u =
     (if plainKey key then Inr (replaceAll (CHR '':'' # key) (encodeURIComponent v) u)
      else (case regexp_replace L (CHR '':'' # key) (encodeURIComponent v) u of
              None \<Rightarrow> Inl (RegExpSyntaxError (CHR '':'' # key))
            | Some u' \<Rightarrow> Inr u'))"

fun replaceLoop :: "'v libs \<Rightarrow> (string \<times> string) list \<Rightarrow> string \<Rightarrow> 'v exception + string" where
  "replaceLoop L [] u = Inr u"
| "replaceLoop L ((key, v) # rest) u =
     (case replaceOne L key v u of
        Inl e \<Rightarrow> Inl e
      | Inr u' \<Rightarrow> replaceLoop L rest u')"

text \<open>Lines 134 to 141.\<close>

definition applyReplacements :: "'v libs \<Rightarrow> 'v resolved \<Rightarrow> 'v exception + 'v resolved" where
  "applyReplacements L p =
     (case replacements p of
        None \<Rightarrow> Inr p
      | Some rs \<Rightarrow>
          (case replaceLoop L rs (url p) of
             Inl e \<Rightarrow> Inl e
           | Inr u \<Rightarrow> Inr (p\<lparr> url := u \<rparr>)))"

definition transformParams :: "'v libs \<Rightarrow> 'v HttpsService \<Rightarrow> 'v descriptor \<Rightarrow> 'v exception + 'v resolved" where
  "transformParams L this p =
     (case stringifyForm L (joinBases L this p) of
        Inl e \<Rightarrow> Inl e
      | Inr p' \<Rightarrow> applyReplacements L p')"

subsection \<open>request\<close>

text \<open>
  The \<open>try\<close> block and its \<open>catch\<close>: the pair of \<open>errorPrefix\<close> and \<open>res\<close> they leave.
\<close>

definition classify :: "(int \<Rightarrow> bool) \<Rightarrow> 'v outcome \<Rightarrow> string option \<times> 'v response option" where
  "classify validator out =
     (case out of
        TimerWon \<Rightarrow> (Some ''Request timeout'', None)
      | Responded res \<Rightarrow>
          (if \<not> validator (res_status res) then (Some ''Request failed'', Some res)
           else (None, Some res))
      | Raised msg \<Rightarrow>
          (if sublist ''timeout'' msg then (Some ''Request timeout'', None)
           else (Some ''Request exception'', None)))"

text \<open>
  \<open>withTimeout\<close> is line 69 and its result the value copied into \<open>rawParams\<close> on line 70;
  \<open>requestError\<close> is the object of lines 97 to 103. In \<open>request\<close>, \<open>net\<close> is the transport
  raced against the timer: what the race gives for the request handed to it. The first
  component of the result lists the requests handed to the transport, the second is
  the exception raised (\<open>Inl\<close>) or the value returned (\<open>Inr\<close>). The cancel token is left
  out: cancelling the losing call changes nothing in what \<open>request\<close> raises or returns.
\<close>

definition withTimeout :: "'v HttpsService \<Rightarrow> 'v descriptor \<Rightarrow> 'v descriptor" where
  "withTimeout this p =
     p\<lparr> req_timeout :=
          Some (case req_timeout p of
                  Some t \<Rightarrow> if t \<noteq> 0 then t else instance_timeout this
                | None \<Rightarrow> instance_timeout this) \<rparr>"

definition requestError :: "string \<Rightarrow> 'v descriptor \<Rightarrow> 'v response option \<Rightarrow> 'v error_object" where
  "requestError errorPrefix rawParams res =
     \<lparr> err_message = errorPrefix @ '': '' @ http_method rawParams @ '' '' @ url rawParams,
       err_config = rawParams,
       err_status = map_option res_status res,
       err_headers = map_option res_headers res,
       err_data = map_option res_data res \<rparr>"

definition request ::
  "'v libs \<Rightarrow> 'v HttpsService option \<Rightarrow> ('v resolved \<Rightarrow> 'v outcome) \<Rightarrow> 'v descriptor
     \<Rightarrow> 'v resolved list \<times> ('v exception + 'v result)" where
  "request L this net p =
     (case this of
        None \<Rightarrow> ([], Inl NotConfigured)
      | Some svc \<Rightarrow>
          (let rawParams = withTimeout svc p
           in case transformParams L svc rawParams of
                Inl e \<Rightarrow> ([], Inl e)
              | Inr p1 \<Rightarrow>
                  (let validator = (case validateStatus p1 of Some f \<Rightarrow> f | None \<Rightarrow> defaultValidator svc);
                       (errorPrefix, res) = classify validator (net p1)
                   in ([p1],
                       (case errorPrefix of
                          Some pre \<Rightarrow> Inl (InternalServerError_object (requestError pre rawParams res))
                        | None \<Rightarrow>
                            (case res of
                               None \<Rightarrow> Inl (TypeError ''Cannot read properties of undefined'')
                             | Some r \<Rightarrow>
                                 (let rt = (case returnType p1 of Some t \<Rightarrow> t | None \<Rightarrow> defaultReturnType svc)
                                  in Inr (if rt = DATA then Data (res_data r) else Full r))))))))"

definition get :: "'v libs \<Rightarrow> 'v HttpsService option \<Rightarrow> ('v resolved \<Rightarrow> 'v outcome) \<Rightarrow> string \<Rightarrow> 'v descriptor
     \<Rightarrow> 'v resolved list \<times> ('v exception + 'v result)" where
  "get L this net u p = request L this net (p\<lparr> http_method := ''GET'', url := u \<rparr>)"

definition post :: "'v libs \<Rightarrow> 'v HttpsService option \<Rightarrow> ('v resolved \<Rightarrow> 'v outcome) \<Rightarrow> string \<Rightarrow> 'v descriptor
     \<Rightarrow> 'v resolved list \<times> ('v exception + 'v result)" where
  "post L this net u p = request L this net (p\<lparr> http_method := ''POST'', url := u \<rparr>)"

definition put :: "'v libs \<Rightarrow> 'v HttpsService option \<Rightarrow> ('v resolved \<Rightarrow> 'v outcome) \<Rightarrow> string \<Rightarrow> 'v descriptor
     \<Rightarrow> 'v resolved list \<times> ('v exception + 'v result)" where
  "put L this net u p = request L this net (p\<lparr> http_method := ''PUT'', url := u \<rparr>)"

definition delete :: "'v libs \<Rightarrow> 'v HttpsService option \<Rightarrow> ('v resolved \<Rightarrow> 'v outcome) \<Rightarrow> string \<Rightarrow> 'v descriptor
     \<Rightarrow> 'v resolved list \<times> ('v exception + 'v result)" where
  "delete L this net u p = request L this net (p\<lparr> http_method := ''DELETE'', url := u \<rparr>)"

section \<open>Concrete inputs\<close>

subsection \<open>Retry policies, operations and clocks\<close>

definition retry_zero :: "string UtilRetryParams" where
  "retry_zero = \<lparr> name = None, retries = Some 0, timeout = None, delay = None, breakIf = None \<rparr>"

definition is_fatal :: "nat thrown \<Rightarrow> bool" where
  "is_fatal e = (e = Thrown 0)"

definition retry_three :: "nat UtilRetryParams" where
  "retry_three =
     \<lparr> name = Some ''job'', retries = Some 3, timeout = Some 5000, delay = Some 10,
       breakIf = Some is_fatal \<rparr>"

definition slow_clock :: "nat \<Rightarrow> int" where
  "slow_clock n = 10 * int n"

definition fail_once :: "nat \<Rightarrow> string thrown + nat" where
  "fail_once n = (if n = 1 then Inl (Thrown ''boom'') else Inr 7)"

definition fail_five_times :: "nat \<Rightarrow> string thrown + nat" where
  "fail_five_times n = (if n \<le> 5 then Inl (Thrown ''boom'') else Inr 7)"

definition always_boom :: "nat \<Rightarrow> string thrown + nat" where
  "always_boom n = Inl (Thrown ''boom'')"

definition numbered_fail :: "nat \<Rightarrow> nat thrown + unit" where
  "numbered_fail n = Inl (Thrown n)"

definition no_time :: "nat \<Rightarrow> int" where
  "no_time n = 0"

subsection \<open>Services, descriptors and transports\<close>

text \<open>
  The library stubs stand for \<open>qs\<close> and the regular-expression engine; the concrete
  descriptors below have keys without metacharacters, so the engine is never asked.
  \<open>resolved_url\<close>, \<open>resolved_headers\<close>, \<open>resolved_data\<close>, \<open>resolved_params\<close> and \<open>resolved_form\<close>
  read one field of a composed request; \<open>composeTwice\<close> runs the composer a second time
  on the object it has already rewritten, and \<open>again_url\<close>, \<open>again_headers\<close> and
  \<open>again_data\<close> read one field of what that leaves.
\<close>

definition stub_stringify :: "(string \<Rightarrow> string option) \<Rightarrow> string" where
  "stub_stringify f = ''a=1''"

definition stub_regexp :: "string \<Rightarrow> string \<Rightarrow> string \<Rightarrow> string option" where
  "stub_regexp src v u = None"

definition stub_spread :: "string \<Rightarrow> string \<Rightarrow> string option" where
  "stub_spread s k = None"

definition stub_libs :: "string libs" where
  "stub_libs =
     \<lparr> qs_stringify = stub_stringify, regexp_replace = stub_regexp, spread_string = stub_spread \<rparr>"

definition api_options :: "string HttpsServiceOptions" where
  "api_options =
     \<lparr> o_defaultValidator = None, o_defaultReturnType = None, o_defaultTimeout = None,
       o_baseUrl = Some ''https://api.test'', o_baseData = None, o_baseHeaders = None,
       o_randomizeUserAgent = True, o_ignoreHttpsErrors = False \<rparr>"

definition api_service :: "string HttpsService" where
  "api_service = setupInstance 60000 ''agent/1'' api_options"

definition get_user :: "string descriptor" where
  "get_user =
     \<lparr> http_method = ''GET'', url = ''/users/:id'', headers = None, data = None, form = None,
       params = None, replacements = Some [(''id'', ''a b'')], req_timeout = None,
       validateStatus = None, returnType = None \<rparr>"

definition get_user_resolved :: "string resolved" where
  "get_user_resolved =
     \<lparr> http_method = ''GET'', url = ''https://api.test/users/a%20b'',
       headers = Some [''user-agent'' \<mapsto> ''agent/1''], data = None, form = None,
       params = None, replacements = Some [(''id'', ''a b'')], req_timeout = Some 60000,
       validateStatus = None, returnType = None \<rparr>"

definition not_found :: "string response" where
  "not_found = \<lparr> res_status = 404, res_headers = [''server'' \<mapsto> ''t''], res_data = ''no such user'' \<rparr>"

definition net_timer :: "string resolved \<Rightarrow> string outcome" where
  "net_timer r = TimerWon"

definition net_404 :: "string resolved \<Rightarrow> string outcome" where
  "net_404 r = Responded not_found"

definition net_axios_timeout :: "string resolved \<Rightarrow> string outcome" where
  "net_axios_timeout r = Raised ''timeout of 60000ms exceeded''"

definition net_reset :: "string resolved \<Rightarrow> string outcome" where
  "net_reset r = Raised ''socket hang up''"

definition versioned_service :: "string HttpsService" where
  "versioned_service =
     setupInstance 60000 ''agent/1'' (api_options\<lparr> o_baseUrl := Some ''https://api.test/:v'' \<rparr>)"

definition get_user_v :: "string descriptor" where
  "get_user_v = get_user\<lparr> replacements := Some [(''id'', ''a b''), (''v'', ''2''), (''zz'', ''9'')] \<rparr>"

definition chained_markers :: "string descriptor" where
  "chained_markers = get_user\<lparr> url := ''/:x:a'', replacements := Some [(''a'', ''b''), (''xb'', ''c'')] \<rparr>"

definition chained_markers_first :: "string descriptor" where
  "chained_markers_first = get_user\<lparr> url := ''/:x:a'', replacements := Some [(''a'', ''b'')] \<rparr>"

definition form_service :: "string HttpsService" where
  "form_service =
     setupInstance 60000 ''agent/1''
       (api_options\<lparr> o_baseData := Some [''token'' \<mapsto> ''t'', ''user'' \<mapsto> ''base''],
                     o_baseHeaders := Some [''content-type'' \<mapsto> ''text/plain'', ''accept'' \<mapsto> ''*/*''] \<rparr>)"

definition post_form :: "string descriptor" where
  "post_form =
     \<lparr> http_method = ''POST'', url = ''/login'',
       headers = Some [''content-type'' \<mapsto> ''application/json''], data = None,
       form = Some [''user'' \<mapsto> ''u''], params = None, replacements = None,
       req_timeout = None, validateStatus = None, returnType = None \<rparr>"

definition lookup_in :: "(string \<Rightarrow> 'a option) option \<Rightarrow> string \<Rightarrow> 'a option" where
  "lookup_in m k = (case m of Some f \<Rightarrow> f k | None \<Rightarrow> None)"

definition resolved_url :: "'v libs \<Rightarrow> 'v HttpsService \<Rightarrow> 'v descriptor \<Rightarrow> string option" where
  "resolved_url L this p = (case transformParams L this p of Inr r \<Rightarrow> Some (url r) | Inl e \<Rightarrow> None)"

definition resolved_headers ::
  "'v libs \<Rightarrow> 'v HttpsService \<Rightarrow> 'v descriptor \<Rightarrow> (string \<Rightarrow> string option) option" where
  "resolved_headers L this p = (case transformParams L this p of Inr r \<Rightarrow> headers r | Inl e \<Rightarrow> None)"

definition resolved_data :: "'v libs \<Rightarrow> 'v HttpsService \<Rightarrow> 'v descriptor \<Rightarrow> 'v body option" where
  "resolved_data L this p = (case transformParams L this p of Inr r \<Rightarrow> data r | Inl e \<Rightarrow> None)"

definition net_etimedout :: "string resolved \<Rightarrow> string outcome" where
  "net_etimedout r = Raised ''connect ETIMEDOUT 10.0.0.1:443''"

definition post_json :: "string descriptor" where
  "post_json =
     \<lparr> http_method = ''POST'', url = ''/users'',
       headers = Some [''accept'' \<mapsto> ''application/json''],
       data = Some (Obj [''user'' \<mapsto> ''u'']), form = None, params = None,
       replacements = None, req_timeout = None, validateStatus = None, returnType = None \<rparr>"

definition resolved_params ::
  "'v libs \<Rightarrow> 'v HttpsService \<Rightarrow> 'v descriptor \<Rightarrow> (string \<Rightarrow> 'v option) option" where
  "resolved_params L this p = (case transformParams L this p of Inr r \<Rightarrow> params r | Inl e \<Rightarrow> None)"

definition resolved_form ::
  "'v libs \<Rightarrow> 'v HttpsService \<Rightarrow> 'v descriptor \<Rightarrow> (string \<Rightarrow> 'v option) option" where
  "resolved_form L this p = (case transformParams L this p of Inr r \<Rightarrow> form r | Inl e \<Rightarrow> None)"






section \<open>The retry executor: properties\<close>

lemma retry_loop_raise:
  "operation (Suc calls) = Inl (Thrown x) \<Longrightarrow>
   retry_loop stop operation clock t calls =
     (if stop t (clock (Suc calls)) (Thrown x) then Some (Suc calls, Inl (Original (Thrown x)))
      else retry_loop stop operation clock (t + 1) (Suc calls))"
  by (subst retry_loop.simps) simp

lemma retry_loop_return:
  "operation (Suc calls) = Inr r \<Longrightarrow> retry_loop stop operation clock t calls = Some (Suc calls, Inr r)"
  by (subst retry_loop.simps) simp

lemma throws_iff:
  "throws P t el e \<longleftrightarrow>
     (\<exists>r. retries P = Some r \<and> r \<noteq> 0 \<and> t > r) \<or>
     (\<exists>b. timeout P = Some b \<and> b \<noteq> 0 \<and> el > b) \<or>
     (\<exists>f. breakIf P = Some f \<and> f e)"
  by (auto simp: throws_def truthy_def split: option.splits)

text \<open>
  As long as the operation rejects with a value other than \<open>undefined\<close> and \<open>null\<close> and
  no test fires, the loop goes from one invocation to the next: after \<open>n\<close> such failures
  it stands before invocation \<open>n + 1\<close>.
\<close>

lemma retry_loop_advance:
  assumes "\<forall>i<n. \<exists>x. operation (Suc (calls + i)) = Inl (Thrown x) \<and>
             \<not> stop (t + int i) (clock (Suc (calls + i))) (Thrown x)"
  shows "retry_loop stop operation clock t calls
           = retry_loop stop operation clock (t + int n) (calls + n)"
  using assms
proof (induction n arbitrary: t calls)
  case 0
  then show ?case by simp
next
  case (Suc n)
  from Suc.prems obtain x where x: "operation (Suc calls) = Inl (Thrown x)"
    and ns: "\<not> stop t (clock (Suc calls)) (Thrown x)"
    by force
  have "\<forall>i<n. \<exists>x. operation (Suc (Suc calls + i)) = Inl (Thrown x) \<and>
             \<not> stop (t + 1 + int i) (clock (Suc (Suc calls + i))) (Thrown x)"
  proof (intro allI impI)
    fix i assume "i < n"
    then have "Suc i < Suc n" by simp
    with Suc.prems obtain y where "operation (Suc (calls + Suc i)) = Inl (Thrown y)"
      and "\<not> stop (t + int (Suc i)) (clock (Suc (calls + Suc i))) (Thrown y)"
      by blast
    then show "\<exists>x. operation (Suc (Suc calls + i)) = Inl (Thrown x) \<and>
             \<not> stop (t + 1 + int i) (clock (Suc (Suc calls + i))) (Thrown x)"
      by (auto simp: add.assoc)
  qed
  from Suc.IH[OF this] have "retry_loop stop operation clock (t + 1) (Suc calls)
      = retry_loop stop operation clock (t + 1 + int n) (Suc calls + n)" .
  moreover have "t + 1 + int n = t + int (Suc n)" and "Suc calls + n = calls + Suc n"
    by simp_all
  moreover from ns retry_loop_raise[of operation calls x stop clock t, OF x]
  have "retry_loop stop operation clock t calls = retry_loop stop operation clock (t + 1) (Suc calls)"
    by simp
  ultimately show ?case
    by (simp only:)
qed

lemma retry_loop_diverges:
  assumes "\<forall>n. \<exists>x. operation n = Inl (Thrown x)" and "\<forall>t el e. \<not> stop t el e"
  shows "retry_loop stop operation clock t calls = None"
proof (rule ccontr)
  assume "retry_loop stop operation clock t calls \<noteq> None"
  then obtain y where y: "retry_loop stop operation clock t calls = Some y" by auto
  have "\<not> ((\<forall>n. \<exists>x. operation n = Inl (Thrown x)) \<and> (\<forall>t el e. \<not> stop t el e))"
  proof (rule retry_loop.raw_induct
      [where P = "\<lambda>s m c t k y. \<not> ((\<forall>n. \<exists>x. m n = Inl (Thrown x)) \<and> (\<forall>t el e. \<not> s t el e))", OF _ y])
    fix loop :: "(int \<Rightarrow> int \<Rightarrow> 'a thrown \<Rightarrow> bool) \<Rightarrow> (nat \<Rightarrow> 'a thrown + 'b) \<Rightarrow> (nat \<Rightarrow> int) \<Rightarrow> int \<Rightarrow> nat
        \<Rightarrow> (nat \<times> ('a raised + 'b)) option"
      and s m c t k r
    assume IH: "\<And>s m c t k r. loop s m c t k = Some r \<Longrightarrow>
                  \<not> ((\<forall>n. \<exists>x. m n = Inl (Thrown x)) \<and> (\<forall>t el e. \<not> s t el e))"
      and body: "(case m (Suc k) of
                    Inl e \<Rightarrow>
                      if s t (c (Suc k)) e then Some (Suc k, Inl (Original e))
                      else (case e of
                              Nullish \<Rightarrow> Some (Suc k, Inl MessageOfNullish)
                            | Thrown x \<Rightarrow> loop s m c (t + 1) (Suc k))
                  | Inr result \<Rightarrow> Some (Suc k, Inr result)) = Some r"
    show "\<not> ((\<forall>n. \<exists>x. m n = Inl (Thrown x)) \<and> (\<forall>t el e. \<not> s t el e))"
    proof
      assume h: "(\<forall>n. \<exists>x. m n = Inl (Thrown x)) \<and> (\<forall>t el e. \<not> s t el e)"
      then obtain x where e: "m (Suc k) = Inl (Thrown x)" by blast
      from h have "\<not> s t (c (Suc k)) (Thrown x)" by blast
      with e body have "loop s m c (t + 1) (Suc k) = Some r" by simp
      from IH[OF this] h show False by blast
    qed
  qed
  with assms show False by simp
qed

lemma four_attempts:
  assumes r: "retries P = Some 3"
    and m: "\<forall>n. operation n = Inl (Thrown (err n))"
    and tb: "\<forall>n\<in>{1, 2, 3}. \<not> (\<exists>b. timeout P = Some b \<and> b \<noteq> 0 \<and> clock n > b)"
    and ab: "\<forall>n\<in>{1, 2, 3}. \<not> (\<exists>f. breakIf P = Some f \<and> f (Thrown (err n)))"
  shows "retryOnException P operation clock = Some (4, Inl (Original (Thrown (err 4))))"
proof -
  have "\<forall>i<3. \<exists>x. operation (Suc (0 + i)) = Inl (Thrown x) \<and>
             \<not> throws P (1 + int i) (clock (Suc (0 + i))) (Thrown x)"
  proof (intro allI impI)
    fix i :: nat assume "i < 3"
    then have i: "Suc i \<in> {1, 2, 3}" by auto
    from tb i have nt: "\<not> (\<exists>b. timeout P = Some b \<and> b \<noteq> 0 \<and> clock (Suc i) > b)"
      by blast
    from ab i have nb: "\<not> (\<exists>f. breakIf P = Some f \<and> f (Thrown (err (Suc i))))"
      by blast
    from \<open>i < 3\<close> r have "\<not> (\<exists>r. retries P = Some r \<and> r \<noteq> 0 \<and> 1 + int i > r)"
      by simp
    with nt nb have "\<not> throws P (1 + int i) (clock (Suc i)) (Thrown (err (Suc i)))"
      unfolding throws_iff by blast
    with m show "\<exists>x. operation (Suc (0 + i)) = Inl (Thrown x) \<and>
             \<not> throws P (1 + int i) (clock (Suc (0 + i))) (Thrown x)"
      by simp
  qed
  from retry_loop_advance[OF this]
  have a: "retry_loop (throws P) operation clock 1 0 = retry_loop (throws P) operation clock 4 3"
    by simp
  have g4: "throws P 4 (clock 4) (Thrown (err 4))"
    using r by (simp add: throws_iff)
  have "retry_loop (throws P) operation clock 4 3 = Some (4, Inl (Original (Thrown (err 4))))"
    using g4 retry_loop_raise[of operation 3 "err 4" "throws P" clock 4] m
    by (simp add: eval_nat_numeral)
  with a show ?thesis
    by (simp add: retryOnException_def)
qed

lemma retries_reach:
  assumes f: "\<forall>i<n. \<exists>x. operation (Suc i) = Inl (Thrown x)"
    and s: "operation (Suc n) = Inr r"
    and ns: "\<forall>t el e. \<not> stop t el e"
  shows "retry_loop stop operation clock 1 0 = Some (Suc n, Inr r)"
proof -
  from f ns have "\<forall>i<n. \<exists>x. operation (Suc (0 + i)) = Inl (Thrown x) \<and>
             \<not> stop (1 + int i) (clock (Suc (0 + i))) (Thrown x)"
    by simp
  from retry_loop_advance[OF this]
  have "retry_loop stop operation clock 1 0 = retry_loop stop operation clock (1 + int n) n"
    by simp
  with s show ?thesis
    by (simp add: retry_loop_return)
qed

text \<open>
  Claim C1, as the code has it, for an operation whose errors are values other than
  \<open>undefined\<close> and \<open>null\<close>. If it fails on every invocation, under a policy with
  \<open>retries = 3\<close> whose time budget and \<open>breakIf\<close> do not fire on the first three failures,
  it is invoked exactly four times, and the error of the fourth invocation is raised
  as it is. At every failure the loop raises the error exactly when \<open>retries\<close> is a
  non-zero number and \<open>tentative\<close> exceeds it, or \<open>timeout\<close> is a non-zero number and the
  elapsed time exceeds it, or \<open>breakIf\<close> is given and holds of the error; otherwise it
  goes on to the next invocation with \<open>tentative\<close> one higher.
\<close>

theorem retryOnException_stop_rule:
  "(retries P = Some 3 \<and> (\<forall>n. operation n = Inl (Thrown (err n))) \<and>
      (\<forall>n\<in>{1, 2, 3}. \<not> (\<exists>b. timeout P = Some b \<and> b \<noteq> 0 \<and> clock n > b)) \<and>
      (\<forall>n\<in>{1, 2, 3}. \<not> (\<exists>f. breakIf P = Some f \<and> f (Thrown (err n))))
     \<longrightarrow> retryOnException P operation clock = Some (4, Inl (Original (Thrown (err 4)))))
   \<and> (m (Suc k) = Inl (Thrown x) \<longrightarrow>
        retry_loop (throws P) m c t k =
          (if (\<exists>r. retries P = Some r \<and> r \<noteq> 0 \<and> t > r) \<or>
              (\<exists>b. timeout P = Some b \<and> b \<noteq> 0 \<and> c (Suc k) > b) \<or>
              (\<exists>f. breakIf P = Some f \<and> f (Thrown x))
           then Some (Suc k, Inl (Original (Thrown x)))
           else retry_loop (throws P) m c (t + 1) (Suc k)))"
proof (intro conjI impI)
  assume "retries P = Some 3 \<and> (\<forall>n. operation n = Inl (Thrown (err n))) \<and>
      (\<forall>n\<in>{1, 2, 3}. \<not> (\<exists>b. timeout P = Some b \<and> b \<noteq> 0 \<and> clock n > b)) \<and>
      (\<forall>n\<in>{1, 2, 3}. \<not> (\<exists>f. breakIf P = Some f \<and> f (Thrown (err n))))"
  then show "retryOnException P operation clock = Some (4, Inl (Original (Thrown (err 4))))"
    using four_attempts[of P operation err clock] by blast
next
  assume "m (Suc k) = Inl (Thrown x)"
  then show "retry_loop (throws P) m c t k =
          (if (\<exists>r. retries P = Some r \<and> r \<noteq> 0 \<and> t > r) \<or>
              (\<exists>b. timeout P = Some b \<and> b \<noteq> 0 \<and> c (Suc k) > b) \<or>
              (\<exists>f. breakIf P = Some f \<and> f (Thrown x))
           then Some (Suc k, Inl (Original (Thrown x)))
           else retry_loop (throws P) m c (t + 1) (Suc k))"
    by (simp add: retry_loop_raise throws_iff)
qed

theorem retryOnException_stop_rule_witness:
  "retries retry_three = Some 3 \<and> timeout retry_three = Some 5000
   \<and> breakIf retry_three = Some is_fatal \<and> numbered_fail 4 = Inl (Thrown 4)
   \<and> retryOnException retry_three numbered_fail slow_clock = Some (4, Inl (Original (Thrown 4)))
   \<and> retry_loop (throws retry_three) numbered_fail slow_clock 4 3 = Some (4, Inl (Original (Thrown 4)))"
proof -
  have "retryOnException retry_three numbered_fail slow_clock = Some (4, Inl (Original (Thrown 4)))"
    by (rule retryOnException_stop_rule
          [where P = retry_three and operation = numbered_fail and err = "\<lambda>n. n" and clock = slow_clock,
            THEN conjunct1, THEN mp])
       (simp add: retry_three_def numbered_fail_def slow_clock_def is_fatal_def)
  moreover have "retry_loop (throws retry_three) numbered_fail slow_clock 4 3
      = Some (4, Inl (Original (Thrown 4)))"
    using retryOnException_stop_rule
          [where P = retry_three and m = numbered_fail and k = 3 and x = 4 and c = slow_clock and t = 4,
            THEN conjunct2, THEN mp]
    by (simp add: retry_three_def numbered_fail_def eval_nat_numeral)
  ultimately show ?thesis
    by (simp add: retry_three_def numbered_fail_def)
qed

text \<open>
  The rule of claim C1 with a bound that is merely set, in place of a non-zero one, fails: with
  \<open>retries = 0\<close> the first failure has \<open>tentative = 1 > 0\<close>, and still the operation is
  invoked a second time, whose value is returned.
\<close>

theorem retryOnException_zero_retries_counterexample:
  "retries retry_zero = Some 0 \<and> fail_once 1 = Inl (Thrown ''boom'') \<and> (1::int) > 0 \<and>
   \<not> throws retry_zero 1 (no_time 1) (Thrown ''boom'') \<and>
   retryOnException retry_zero fail_once no_time = Some (2, Inr 7)"
proof -
  have t: "\<not> throws retry_zero 1 (no_time 1) (Thrown ''boom'')"
    by (simp add: throws_def truthy_def retry_zero_def)
  have "retry_loop (throws retry_zero) fail_once no_time 1 0
          = retry_loop (throws retry_zero) fail_once no_time 2 1"
    using t retry_loop_raise[of fail_once 0 "''boom''" "throws retry_zero" no_time 1]
    by (simp add: fail_once_def)
  moreover have "retry_loop (throws retry_zero) fail_once no_time 2 1 = Some (2, Inr 7)"
    using retry_loop_return[of fail_once 1 7 "throws retry_zero" no_time 2]
    by (simp add: fail_once_def numeral_2_eq_2)
  ultimately show ?thesis
    using t by (simp add: retryOnException_def retry_zero_def fail_once_def)
qed

text \<open>
  Claim C10. The bounds are tested by truthiness: a policy with \<open>retries = 0\<close> runs as
  the policy with \<open>retries\<close> unset does, and likewise for \<open>timeout = 0\<close>: the stop test
  gives the same answer at every failure, and so does the whole run, for every
  operation and clock. With \<open>retries = 0\<close>, no time budget and no \<open>breakIf\<close>, the
  retrying has no bound: however many times the operation fails (with errors other
  than \<open>undefined\<close> and \<open>null\<close>) before it first succeeds, it is invoked that many times
  and once more, and its value is returned; and when it fails every time, the call
  never returns.
\<close>

theorem retries_zero_is_unbounded:
  "retryOnException (P\<lparr> retries := Some 0 \<rparr>) operation clock
     = retryOnException (P\<lparr> retries := None \<rparr>) operation clock
   \<and> retryOnException (P\<lparr> timeout := Some 0 \<rparr>) operation clock
     = retryOnException (P\<lparr> timeout := None \<rparr>) operation clock
   \<and> throws (P\<lparr> retries := Some 0 \<rparr>) t el e = throws (P\<lparr> retries := None \<rparr>) t el e
   \<and> throws (P\<lparr> timeout := Some 0 \<rparr>) t el e = throws (P\<lparr> timeout := None \<rparr>) t el e
   \<and> ((\<forall>i<n. \<exists>x. operation (Suc i) = Inl (Thrown x)) \<and> operation (Suc n) = Inr r \<and>
        \<not> truthy (timeout P) \<and> breakIf P = None
        \<longrightarrow> retryOnException (P\<lparr> retries := Some 0 \<rparr>) operation clock = Some (Suc n, Inr r))
   \<and> ((\<forall>n. \<exists>x. operation n = Inl (Thrown x)) \<and> \<not> truthy (timeout P) \<and> breakIf P = None
        \<longrightarrow> retryOnException (P\<lparr> retries := Some 0 \<rparr>) operation clock = None)"
proof -
  have r: "throws (P\<lparr> retries := Some 0 \<rparr>) = throws (P\<lparr> retries := None \<rparr>)"
    by (intro ext) (simp add: throws_def truthy_def)
  have b: "throws (P\<lparr> timeout := Some 0 \<rparr>) = throws (P\<lparr> timeout := None \<rparr>)"
    by (intro ext) (simp add: throws_def truthy_def)
  have never: "\<forall>t el e. \<not> throws (P\<lparr> retries := Some 0 \<rparr>) t el e"
    if "\<not> truthy (timeout P) \<and> breakIf P = None"
    using that by (simp add: throws_def truthy_def)
  have reach: "retryOnException (P\<lparr> retries := Some 0 \<rparr>) operation clock = Some (Suc n, Inr r)"
    if "(\<forall>i<n. \<exists>x. operation (Suc i) = Inl (Thrown x)) \<and> operation (Suc n) = Inr r \<and>
        \<not> truthy (timeout P) \<and> breakIf P = None"
    unfolding retryOnException_def
    using that never by (intro retries_reach) blast+
  have d: "retryOnException (P\<lparr> retries := Some 0 \<rparr>) operation clock = None"
    if "(\<forall>n. \<exists>x. operation n = Inl (Thrown x)) \<and> \<not> truthy (timeout P) \<and> breakIf P = None"
    unfolding retryOnException_def
    using that never by (intro retry_loop_diverges) blast+
  show ?thesis
    using r b d reach by (simp add: retryOnException_def)
qed

theorem retries_zero_is_unbounded_witness:
  "retries retry_zero = Some 0
   \<and> fail_five_times 5 = Inl (Thrown ''boom'') \<and> fail_five_times 6 = Inr 7
   \<and> retryOnException retry_zero fail_five_times no_time = Some (6, Inr 7)
   \<and> always_boom 1 = Inl (Thrown ''boom'')
   \<and> retryOnException retry_zero always_boom no_time = None"
proof -
  have z: "retry_zero\<lparr> retries := Some 0 \<rparr> = retry_zero"
    by (simp add: retry_zero_def)
  have "retryOnException (retry_zero\<lparr> retries := Some 0 \<rparr>) fail_five_times no_time = Some (Suc 5, Inr 7)"
    by (rule retries_zero_is_unbounded
          [where P = retry_zero and operation = fail_five_times and clock = no_time and n = 5,
            THEN conjunct2, THEN conjunct2, THEN conjunct2, THEN conjunct2, THEN conjunct1, THEN mp])
       (simp add: retry_zero_def fail_five_times_def truthy_def)
  moreover
  have "retryOnException (retry_zero\<lparr> retries := Some 0 \<rparr>) always_boom no_time = None"
    by (rule retries_zero_is_unbounded
          [where P = retry_zero and operation = always_boom and clock = no_time,
            THEN conjunct2, THEN conjunct2, THEN conjunct2, THEN conjunct2, THEN conjunct2, THEN mp])
       (simp add: retry_zero_def always_boom_def truthy_def)
  ultimately show ?thesis
    using z by (simp add: retry_zero_def always_boom_def fail_five_times_def)
qed

section \<open>The HTTP client: properties\<close>

subsection \<open>Global replacement of a literal pattern\<close>

lemma replaceAll_absent: "\<not> sublist pat u \<Longrightarrow> replaceAll pat w u = u"
proof (induction u)
  case Nil
  then show ?case by simp
next
  case (Cons c cs)
  then have "\<not> prefix pat (c # cs)" and "\<not> sublist pat cs"
    by (auto simp: sublist_Cons_right)
  with Cons.IH show ?case by simp
qed

lemma replaceAll_here: "pat \<noteq> [] \<Longrightarrow> replaceAll pat w (pat @ ys) = w @ replaceAll pat w ys"
  by (cases pat) simp_all

lemma prefix_short:
  assumes "prefix pat (A @ B)" and "length pat \<le> length A"
  shows "prefix pat A"
proof -
  from assms(1) consider "prefix pat A" | us where "pat = A @ us"
    unfolding prefix_append by blast
  then show ?thesis
  proof cases
    case 1
    then show ?thesis .
  next
    case 2
    then have "length pat = length A + length us" by simp
    with assms(2) have "us = []" by simp
    with 2 show ?thesis by simp
  qed
qed

lemma prefix_within:
  assumes "prefix pat (xs @ pat @ ys)" and "xs \<noteq> []"
  shows "prefix pat (xs @ butlast pat)"
proof (cases "pat = []")
  case True
  then show ?thesis by simp
next
  case False
  then have split: "xs @ pat @ ys = (xs @ butlast pat) @ (last pat # ys)"
    by simp
  from assms(2) False have len: "length pat \<le> length (xs @ butlast pat)"
    by (cases xs) simp_all
  from assms(1) have "prefix pat ((xs @ butlast pat) @ (last pat # ys))"
    unfolding split .
  then show ?thesis
    using len by (rule prefix_short)
qed

lemma replaceAll_first:
  "pat \<noteq> [] \<Longrightarrow> \<not> sublist pat (xs @ butlast pat) \<Longrightarrow>
   replaceAll pat w (xs @ pat @ ys) = xs @ w @ replaceAll pat w ys"
proof (induction xs)
  case Nil
  then show ?case by (simp add: replaceAll_here)
next
  case (Cons x xs)
  from Cons.prems(2) have np: "\<not> prefix pat ((x # xs) @ butlast pat)" and ns: "\<not> sublist pat (xs @ butlast pat)"
    by (auto simp: sublist_Cons_right)
  from np have "\<not> prefix pat ((x # xs) @ pat @ ys)"
    using prefix_within[of pat "x # xs" ys] by blast
  with Cons.IH[OF Cons.prems(1) ns] show ?case by simp
qed

subsection \<open>The fields of a composed request\<close>

lemma joinBases_url:
  "url (joinBases L this p) = (case baseUrl this of Some b \<Rightarrow> b @ url p | None \<Rightarrow> url p)"
  by (simp add: joinBases_def Let_def split: option.splits)

lemma joinBases_headers:
  "headers (joinBases L this p) =
     Some (baseHeaders this ++ (case headers p of Some h \<Rightarrow> h | None \<Rightarrow> Map.empty))"
  by (simp add: joinBases_def Let_def split: option.splits)

lemma joinBases_data:
  "data (joinBases L this p) =
     (case baseData this of Some bd \<Rightarrow> map_option (mergeData L bd) (data p) | None \<Rightarrow> data p)"
  by (simp add: joinBases_def Let_def split: option.splits)

lemma joinBases_form:
  "form (joinBases L this p) =
     (case baseData this of Some bd \<Rightarrow> map_option (\<lambda>f. bd ++ f) (form p) | None \<Rightarrow> form p)"
  by (simp add: joinBases_def Let_def split: option.splits)

lemma joinBases_params:
  "params (joinBases L this p) =
     (case baseData this of Some bd \<Rightarrow> map_option (\<lambda>q. bd ++ q) (params p) | None \<Rightarrow> params p)"
  by (simp add: joinBases_def Let_def split: option.splits)

lemma joinBases_rest:
  "http_method (joinBases L this p) = http_method p"
  "replacements (joinBases L this p) = replacements p"
  "req_timeout (joinBases L this p) = req_timeout p"
  "validateStatus (joinBases L this p) = validateStatus p"
  "returnType (joinBases L this p) = returnType p"
  by (simp_all add: joinBases_def Let_def split: option.splits)

lemma stringifyForm_headers_set:
  assumes "headers q = Some h"
  shows "stringifyForm L q =
     Inr (case form q of
            None \<Rightarrow> q
          | Some f \<Rightarrow> q\<lparr> headers := Some (h(''content-type'' \<mapsto> ''application/x-www-form-urlencoded'')),
                          data := Some (Str (qs_stringify L f)) \<rparr>)"
  using assms by (simp add: stringifyForm_def split: option.splits)

lemma applyReplacements_Inr:
  assumes "applyReplacements L q = Inr r"
  shows "r = q\<lparr> url := url r \<rparr>"
    and "replaceLoop L (case replacements q of Some rs \<Rightarrow> rs | None \<Rightarrow> []) (url q) = Inr (url r)"
  using assms by (auto simp: applyReplacements_def split: option.splits sum.splits)

lemma transformParams_Inr:
  assumes "transformParams L this p = Inr r"
  shows "http_method r = http_method p"
    and "headers r =
          (case form p of
             None \<Rightarrow> headers (joinBases L this p)
           | Some f \<Rightarrow> map_option (\<lambda>h. h(''content-type'' \<mapsto> ''application/x-www-form-urlencoded''))
                        (headers (joinBases L this p)))"
    and "data r =
          (case form (joinBases L this p) of
             None \<Rightarrow> data (joinBases L this p)
           | Some f \<Rightarrow> Some (Str (qs_stringify L f)))"
    and "form r = form (joinBases L this p)"
    and "params r = params (joinBases L this p)"
    and "replacements r = replacements p"
    and "req_timeout r = req_timeout p"
    and "validateStatus r = validateStatus p"
    and "returnType r = returnType p"
    and "replaceLoop L (case replacements p of Some rs \<Rightarrow> rs | None \<Rightarrow> []) (url (joinBases L this p))
           = Inr (url r)"
proof -
  let ?j = "joinBases L this p"
  obtain h where h: "headers ?j = Some h"
    by (simp add: joinBases_headers)
  obtain q where q: "stringifyForm L ?j = Inr q" and a: "applyReplacements L q = Inr r"
    using assms by (auto simp: transformParams_def split: sum.splits)
  have sq: "q = (case form ?j of
            None \<Rightarrow> ?j
          | Some f \<Rightarrow> ?j\<lparr> headers := Some (h(''content-type'' \<mapsto> ''application/x-www-form-urlencoded'')),
                          data := Some (Str (qs_stringify L f)) \<rparr>)"
    using q unfolding stringifyForm_headers_set[OF h] by simp
  from sq have fq: "http_method q = http_method p" "form q = form ?j" "params q = params ?j"
    "replacements q = replacements p" "req_timeout q = req_timeout p"
    "validateStatus q = validateStatus p" "returnType q = returnType p" "url q = url ?j"
    by (auto simp: joinBases_rest split: option.splits)
  from sq h have hq: "headers q = (case form ?j of None \<Rightarrow> Some h
      | Some f \<Rightarrow> Some (h(''content-type'' \<mapsto> ''application/x-www-form-urlencoded'')))"
    and dq: "data q = (case form ?j of None \<Rightarrow> data ?j
      | Some f \<Rightarrow> Some (Str (qs_stringify L f)))"
    by (auto split: option.splits)
  note ar = applyReplacements_Inr[OF a]
  have same: "http_method r = http_method q" "headers r = headers q" "data r = data q"
    "form r = form q" "params r = params q" "replacements r = replacements q"
    "req_timeout r = req_timeout q" "validateStatus r = validateStatus q" "returnType r = returnType q"
    by (subst ar(1), simp)+
  show "http_method r = http_method p" using same fq by simp
  show "form r = form ?j" using same fq by simp
  show "params r = params ?j" using same fq by simp
  show "replacements r = replacements p" using same fq by simp
  show "req_timeout r = req_timeout p" using same fq by simp
  show "validateStatus r = validateStatus p" using same fq by simp
  show "returnType r = returnType p" using same fq by simp
  show "data r = (case form ?j of None \<Rightarrow> data ?j
      | Some f \<Rightarrow> Some (Str (qs_stringify L f)))" using same dq by simp
  show "headers r = (case form p of None \<Rightarrow> headers ?j
      | Some f \<Rightarrow> map_option (\<lambda>h. h(''content-type'' \<mapsto> ''application/x-www-form-urlencoded'')) (headers ?j))"
  proof (cases "form p")
    case None
    then have "form ?j = None" by (simp add: joinBases_form split: option.splits)
    with same hq h None show ?thesis by simp
  next
    case (Some f)
    then obtain g where "form ?j = Some g"
      by (cases "baseData this") (simp_all add: joinBases_form)
    with same hq h Some show ?thesis by simp
  qed
  show "replaceLoop L (case replacements p of Some rs \<Rightarrow> rs | None \<Rightarrow> []) (url ?j) = Inr (url r)"
    using ar(2) fq by simp
qed




lemma transformParams_headers:
  assumes "transformParams L this p = Inr r"
  shows "\<exists>hm. headers r = Some hm \<and>
           (\<forall>k. hm k = (if form p \<noteq> None \<and> k = ''content-type''
                         then Some ''application/x-www-form-urlencoded''
                         else case (case headers p of Some h \<Rightarrow> h k | None \<Rightarrow> None) of
                                Some v \<Rightarrow> Some v
                              | None \<Rightarrow> baseHeaders this k))"
  using transformParams_Inr(2)[OF assms]
  by (cases "form p") (auto simp: joinBases_headers map_add_def split: option.splits)


subsection \<open>Composition and its failures\<close>

lemma replaceLoop_Inl:
  "replaceLoop L rs u = Inl x \<Longrightarrow> \<exists>s. x = RegExpSyntaxError s"
proof (induction rs arbitrary: u)
  case Nil
  then show ?case by simp
next
  case (Cons kv rs)
  obtain key v where kv: "kv = (key, v)" by (cases kv)
  show ?case
  proof (cases "replaceOne L key v u")
    case (Inl e)
    with Cons.prems kv have "x = e" by simp
    with Inl show ?thesis
      by (auto simp: replaceOne_def split: if_splits option.splits)
  next
    case (Inr u')
    with Cons.prems kv have "replaceLoop L rs u' = Inl x" by simp
    then show ?thesis by (rule Cons.IH)
  qed
qed

lemma transformParams_Inl:
  assumes "transformParams L this p = Inl x"
  shows "\<exists>s. x = RegExpSyntaxError s"
proof -
  obtain h where h: "headers (joinBases L this p) = Some h"
    by (simp add: joinBases_headers)
  obtain q where q: "stringifyForm L (joinBases L this p) = Inr q"
    by (simp add: stringifyForm_headers_set[OF h])
  with assms have "applyReplacements L q = Inl x"
    by (simp add: transformParams_def)
  then obtain rs where "replaceLoop L rs (url q) = Inl x"
    by (auto simp: applyReplacements_def split: option.splits sum.splits)
  then show ?thesis by (rule replaceLoop_Inl)
qed

lemma replaceLoop_plain:
  "list_all (\<lambda>kv. plainKey (fst kv)) rs \<Longrightarrow> \<exists>u'. replaceLoop L rs u = Inr u'"
proof (induction rs arbitrary: u)
  case Nil
  then show ?case by simp
next
  case (Cons kv rs)
  obtain key v where kv: "kv = (key, v)" by (cases kv)
  with Cons.prems have "plainKey key" and rest: "list_all (\<lambda>kv. plainKey (fst kv)) rs"
    by simp_all
  then have "replaceOne L key v u = Inr (replaceAll (CHR '':'' # key) (encodeURIComponent v) u)"
    by (simp add: replaceOne_def)
  with Cons.IH[OF rest] kv show ?case by simp
qed

lemma transformParams_plain:
  assumes "case replacements p of None \<Rightarrow> True | Some rs \<Rightarrow> list_all (\<lambda>kv. plainKey (fst kv)) rs"
  shows "\<exists>r. transformParams L this p = Inr r"
proof -
  obtain h where h: "headers (joinBases L this p) = Some h"
    by (simp add: joinBases_headers)
  obtain q where q: "stringifyForm L (joinBases L this p) = Inr q"
    by (simp add: stringifyForm_headers_set[OF h])
  then have rq: "replacements q = replacements p"
    unfolding stringifyForm_headers_set[OF h]
    by (auto simp: joinBases_rest split: option.splits)
  show ?thesis
  proof (cases "replacements p")
    case None
    with q rq show ?thesis
      by (simp add: transformParams_def applyReplacements_def)
  next
    case (Some rs)
    with assms obtain u' where "replaceLoop L rs (url q) = Inr u'"
      using replaceLoop_plain[of rs L "url q"] by auto
    with q rq Some show ?thesis
      by (simp add: transformParams_def applyReplacements_def)
  qed
qed

lemma request_classified:
  assumes tp: "transformParams L svc (withTimeout svc p) = Inr p1"
    and cl: "classify (case validateStatus p of Some f \<Rightarrow> f | None \<Rightarrow> defaultValidator svc) (net p1)
               = (Some pre, res)"
  shows "request L (Some svc) net p =
           ([p1], Inl (InternalServerError_object (requestError pre (withTimeout svc p) res)))"
proof -
  have "validateStatus p1 = validateStatus p"
    using transformParams_Inr(8)[OF tp] by (simp add: withTimeout_def)
  with tp cl show ?thesis
    by (simp add: request_def Let_def)
qed

lemma encodeURIComponent_chars:
  "c \<in> set (encodeURIComponent s) \<Longrightarrow> c \<in> set unreservedChars \<union> set ''%0123456789ABCDEF''"
proof (induction s)
  case Nil
  then show ?case by (simp add: encodeURIComponent_def)
next
  case (Cons x xs)
  have hex: "hexDigit n \<in> set ''0123456789ABCDEF''" for n
    unfolding hexDigit_def by (rule nth_mem) simp
  from Cons.prems consider "c \<in> set (if x \<in> set unreservedChars then [x] else percentEncode x)"
    | "c \<in> set (encodeURIComponent xs)"
    by (auto simp: encodeURIComponent_def)
  then show ?case
  proof cases
    case 1
    then show ?thesis
      using hex[of "of_char x div 16"] hex[of "of_char x mod 16"]
      by (auto simp: percentEncode_def split: if_splits)
  next
    case 2
    then show ?thesis by (rule Cons.IH)
  qed
qed

text \<open>
  The value put in place of a match has no \<open>$\<close>, so \<open>replace\<close> inserts it as it is, and
  no \<open>:\<close>, so a substitution never writes a marker of its own.
\<close>

lemma encodeURIComponent_literal:
  "CHR ''$'' \<notin> set (encodeURIComponent s)" and "CHR '':'' \<notin> set (encodeURIComponent s)"
  using encodeURIComponent_chars[of "CHR ''$''" s] encodeURIComponent_chars[of "CHR '':''" s]
  by (auto simp: unreservedChars_def)

subsection \<open>Evaluation of the concrete inputs\<close>

lemmas eval_defs =
  api_service_def versioned_service_def form_service_def setupInstance_def api_options_def
  get_user_def get_user_v_def chained_markers_def chained_markers_first_def post_form_def
  stub_libs_def stub_stringify_def stub_regexp_def
  plainKey_def regexMeta_def encodeURIComponent_def unreservedChars_def percentEncode_def hexDigit_def

lemma get_user_composed:
  "transformParams stub_libs api_service (withTimeout api_service get_user) = Inr get_user_resolved"
  apply (simp add: transformParams_def withTimeout_def api_service_def setupInstance_def api_options_def get_user_def
     get_user_resolved_def joinBases_def stringifyForm_def applyReplacements_def replaceOne_def plainKey_def regexMeta_def
     encodeURIComponent_def unreservedChars_def percentEncode_def hexDigit_def Let_def)
  done

subsection \<open>The claims about the HTTP client\<close>

text \<open>
  Claim C2, as the code has it. Every error object that \<open>request\<close> raises carries in
  \<open>config\<close> the copy \<open>rawParams\<close>, taken before \<open>transformParams\<close> runs: the descriptor as the
  caller gave it with only the effective timeout filled in. Its url, headers, data,
  form and params are the caller's, not the composed ones; the composed request is
  what the transport was handed.
\<close>

theorem request_error_snapshot:
  "request L (Some svc) net p = (sent, Inl (InternalServerError_object e)) \<longrightarrow>
     err_config e = withTimeout svc p
     \<and> url (err_config e) = url p
     \<and> headers (err_config e) = headers p
     \<and> data (err_config e) = data p
     \<and> form (err_config e) = form p
     \<and> params (err_config e) = params p
     \<and> (\<exists>p1. sent = [p1] \<and> transformParams L svc (withTimeout svc p) = Inr p1)"
proof
  assume r: "request L (Some svc) net p = (sent, Inl (InternalServerError_object e))"
  show "err_config e = withTimeout svc p
     \<and> url (err_config e) = url p
     \<and> headers (err_config e) = headers p
     \<and> data (err_config e) = data p
     \<and> form (err_config e) = form p
     \<and> params (err_config e) = params p
     \<and> (\<exists>p1. sent = [p1] \<and> transformParams L svc (withTimeout svc p) = Inr p1)"
  proof (cases "transformParams L svc (withTimeout svc p)")
    case (Inl x)
    with r have "x = InternalServerError_object e"
      by (simp add: request_def Let_def)
    with transformParams_Inl[OF Inl] show ?thesis by auto
  next
    case (Inr p1)
    with r have "sent = [p1]" and "err_config e = withTimeout svc p"
      by (auto simp: request_def Let_def requestError_def split: prod.splits option.splits if_splits)
    with Inr show ?thesis
      by (simp add: withTimeout_def)
  qed
qed

theorem request_error_snapshot_witness:
  "request stub_libs (Some api_service) net_404 get_user =
     ([get_user_resolved],
      Inl (InternalServerError_object
            (requestError ''Request failed'' (withTimeout api_service get_user) (Some not_found))))
   \<and> err_config (requestError ''Request failed'' (withTimeout api_service get_user) (Some not_found))
       = withTimeout api_service get_user
   \<and> url (err_config (requestError ''Request failed'' (withTimeout api_service get_user) (Some not_found)))
       = url get_user"
proof -
  have dv: "defaultValidator api_service = (\<lambda>s. s < 400)"
    by (simp add: api_service_def setupInstance_def api_options_def)
  have r: "request stub_libs (Some api_service) net_404 get_user =
     ([get_user_resolved],
      Inl (InternalServerError_object
            (requestError ''Request failed'' (withTimeout api_service get_user) (Some not_found))))"
    by (rule request_classified[OF get_user_composed])
       (simp add: classify_def net_404_def not_found_def get_user_def dv)
  from request_error_snapshot[THEN mp, OF r] r show ?thesis by blast
qed

text \<open>
  Claim C2 as stated fails: with base URL \<open>https://api.test\<close>, url \<open>/users/:id\<close> and the
  timer winning, the snapshot in the error has the url \<open>/users/:id\<close> and no headers,
  while the request after composition has the url \<open>https://api.test/users/a%20b\<close> and
  the base headers.
\<close>

theorem request_error_snapshot_counterexample:
  "request stub_libs (Some api_service) net_timer get_user =
     ([get_user_resolved],
      Inl (InternalServerError_object
            \<lparr> err_message = ''Request timeout: GET /users/:id'',
              err_config = get_user\<lparr> req_timeout := Some 60000 \<rparr>,
              err_status = None, err_headers = None, err_data = None \<rparr>))
   \<and> url (get_user\<lparr> req_timeout := Some 60000 \<rparr>) = ''/users/:id''
   \<and> url get_user_resolved = ''https://api.test/users/a%20b''
   \<and> headers (get_user\<lparr> req_timeout := Some 60000 \<rparr>) = None
   \<and> headers get_user_resolved = Some [''user-agent'' \<mapsto> ''agent/1'']"
proof -
  have w: "withTimeout api_service get_user = get_user\<lparr> req_timeout := Some 60000 \<rparr>"
    by (simp add: withTimeout_def api_service_def setupInstance_def api_options_def get_user_def)
  have "request stub_libs (Some api_service) net_timer get_user =
     ([get_user_resolved],
      Inl (InternalServerError_object
            (requestError ''Request timeout'' (withTimeout api_service get_user) None)))"
    by (rule request_classified[OF get_user_composed]) (simp add: classify_def net_timer_def)
  then show ?thesis
    unfolding w by (simp add: requestError_def get_user_def get_user_resolved_def)
qed

text \<open>
  Claim C3, as the code has it. On a configured service whose composition succeeds:
  when the timer wins the race the error has the prefix \<open>Request timeout\<close> and neither
  status, headers nor data; when the transport raises an exception whose message
  includes the string \<open>timeout\<close>, in lower case as line 92 tests it, the error is the
  same; when it raises any other exception the prefix is \<open>Request exception\<close>, again
  with no status, headers or data. The category of the spec is carried by this prefix,
  the only classification the error object holds.
\<close>

theorem request_failure_classes:
  "(transformParams L svc (withTimeout svc p) = Inr p1 \<and> net p1 = TimerWon \<longrightarrow>
      request L (Some svc) net p =
        ([p1], Inl (InternalServerError_object
                     (requestError ''Request timeout'' (withTimeout svc p) None))))
   \<and> (transformParams L svc (withTimeout svc p) = Inr p1 \<and> net p1 = Raised msg \<and> sublist ''timeout'' msg \<longrightarrow>
      request L (Some svc) net p =
        ([p1], Inl (InternalServerError_object
                     (requestError ''Request timeout'' (withTimeout svc p) None))))
   \<and> (transformParams L svc (withTimeout svc p) = Inr p1 \<and> net p1 = Raised msg \<and> \<not> sublist ''timeout'' msg \<longrightarrow>
      request L (Some svc) net p =
        ([p1], Inl (InternalServerError_object
                     (requestError ''Request exception'' (withTimeout svc p) None))))
   \<and> err_message (requestError pre raw res) = pre @ '': '' @ http_method raw @ '' '' @ url raw
   \<and> err_status (requestError pre raw None) = None
   \<and> err_headers (requestError pre raw None) = None
   \<and> err_data (requestError pre raw None) = None"
proof (intro conjI impI)
  assume "transformParams L svc (withTimeout svc p) = Inr p1 \<and> net p1 = TimerWon"
  then show "request L (Some svc) net p =
        ([p1], Inl (InternalServerError_object (requestError ''Request timeout'' (withTimeout svc p) None)))"
    by (intro request_classified) (simp_all add: classify_def)
next
  assume "transformParams L svc (withTimeout svc p) = Inr p1 \<and> net p1 = Raised msg \<and> sublist ''timeout'' msg"
  then show "request L (Some svc) net p =
        ([p1], Inl (InternalServerError_object (requestError ''Request timeout'' (withTimeout svc p) None)))"
    by (intro request_classified) (simp_all add: classify_def)
next
  assume "transformParams L svc (withTimeout svc p) = Inr p1 \<and> net p1 = Raised msg \<and> \<not> sublist ''timeout'' msg"
  then show "request L (Some svc) net p =
        ([p1], Inl (InternalServerError_object (requestError ''Request exception'' (withTimeout svc p) None)))"
    by (intro request_classified) (simp_all add: classify_def)
qed (simp_all add: requestError_def)

theorem request_failure_classes_witness:
  "request stub_libs (Some api_service) net_timer get_user =
     ([get_user_resolved],
      Inl (InternalServerError_object
            \<lparr> err_message = ''Request timeout: GET /users/:id'',
              err_config = withTimeout api_service get_user,
              err_status = None, err_headers = None, err_data = None \<rparr>))
   \<and> request stub_libs (Some api_service) net_axios_timeout get_user =
     ([get_user_resolved],
      Inl (InternalServerError_object
            \<lparr> err_message = ''Request timeout: GET /users/:id'',
              err_config = withTimeout api_service get_user,
              err_status = None, err_headers = None, err_data = None \<rparr>))
   \<and> request stub_libs (Some api_service) net_reset get_user =
     ([get_user_resolved],
      Inl (InternalServerError_object
            \<lparr> err_message = ''Request exception: GET /users/:id'',
              err_config = withTimeout api_service get_user,
              err_status = None, err_headers = None, err_data = None \<rparr>))"
proof -
  note tp = get_user_composed
  have m: "http_method (withTimeout api_service get_user) = ''GET''"
    "url (withTimeout api_service get_user) = ''/users/:id''"
    by (simp_all add: withTimeout_def get_user_def)
  have a: "request stub_libs (Some api_service) net_timer get_user =
     ([get_user_resolved], Inl (InternalServerError_object
        (requestError ''Request timeout'' (withTimeout api_service get_user) None)))"
    by (rule request_failure_classes[THEN conjunct1, THEN mp]) (simp add: tp net_timer_def)
  have b: "request stub_libs (Some api_service) net_axios_timeout get_user =
     ([get_user_resolved], Inl (InternalServerError_object
        (requestError ''Request timeout'' (withTimeout api_service get_user) None)))"
    by (rule request_failure_classes
          [where msg = "''timeout of 60000ms exceeded''", THEN conjunct2, THEN conjunct1, THEN mp])
       (simp add: tp net_axios_timeout_def sublist_code(3))
  have c: "request stub_libs (Some api_service) net_reset get_user =
     ([get_user_resolved], Inl (InternalServerError_object
        (requestError ''Request exception'' (withTimeout api_service get_user) None)))"
    by (rule request_failure_classes
          [where msg = "''socket hang up''", THEN conjunct2, THEN conjunct2, THEN conjunct1, THEN mp])
       (simp add: tp net_reset_def sublist_code(3))
  show ?thesis
    unfolding a b c by (simp add: requestError_def m)
qed

text \<open>
  Claim C3 as stated fails for a message that indicates a timeout in other words: the
  exception \<open>connect ETIMEDOUT 10.0.0.1:443\<close> does not include \<open>timeout\<close>, and the error
  raised has the prefix \<open>Request exception\<close>.
\<close>

theorem request_failure_classes_counterexample:
  "net_etimedout get_user_resolved = Raised ''connect ETIMEDOUT 10.0.0.1:443''
   \<and> request stub_libs (Some api_service) net_etimedout get_user =
     ([get_user_resolved],
      Inl (InternalServerError_object
            \<lparr> err_message = ''Request exception: GET /users/:id'',
              err_config = withTimeout api_service get_user,
              err_status = None, err_headers = None, err_data = None \<rparr>))"
proof -
  have m: "http_method (withTimeout api_service get_user) = ''GET''"
    "url (withTimeout api_service get_user) = ''/users/:id''"
    by (simp_all add: withTimeout_def get_user_def)
  have "request stub_libs (Some api_service) net_etimedout get_user =
     ([get_user_resolved], Inl (InternalServerError_object
        (requestError ''Request exception'' (withTimeout api_service get_user) None)))"
    by (rule request_classified[OF get_user_composed])
       (simp add: classify_def net_etimedout_def sublist_code(3))
  then show ?thesis
    by (simp add: requestError_def m net_etimedout_def)
qed

text \<open>
  Claim C4, as the code has it. With a base URL \<open>B\<close> the url after the join is \<open>B @ U\<close>,
  nothing normalised. The keys of \<open>replacements\<close> are then taken one at a time, in
  enumeration order, each on the url as the keys before it left it: a key without
  regular-expression metacharacters replaces, from left to right, every occurrence of
  its marker (in the base or the relative part) by the percent-encoded value, and
  leaves the url as it is when the marker does not occur at its turn.
\<close>

theorem url_composition:
  "(baseUrl this = Some B \<longrightarrow> url (joinBases L this p) = B @ url p)
   \<and> (transformParams L this p = Inr r \<longrightarrow>
        replaceLoop L (case replacements p of Some rs \<Rightarrow> rs | None \<Rightarrow> []) (url (joinBases L this p))
          = Inr (url r))
   \<and> replaceLoop L [] u = Inr u
   \<and> (plainKey key \<longrightarrow>
        replaceLoop L ((key, v) # rest) u
          = replaceLoop L rest (replaceAll (CHR '':'' # key) (encodeURIComponent v) u))
   \<and> (\<not> sublist (CHR '':'' # key) u \<longrightarrow> replaceAll (CHR '':'' # key) w u = u)
   \<and> (\<not> sublist (CHR '':'' # key) (xs @ butlast (CHR '':'' # key)) \<longrightarrow>
        replaceAll (CHR '':'' # key) w (xs @ (CHR '':'' # key) @ ys)
          = xs @ w @ replaceAll (CHR '':'' # key) w ys)"
proof (intro conjI impI)
  assume "baseUrl this = Some B"
  then show "url (joinBases L this p) = B @ url p"
    by (simp add: joinBases_url)
next
  assume "transformParams L this p = Inr r"
  then show "replaceLoop L (case replacements p of Some rs \<Rightarrow> rs | None \<Rightarrow> []) (url (joinBases L this p))
          = Inr (url r)"
    by (rule transformParams_Inr(10))
next
  show "replaceLoop L [] u = Inr u" by simp
next
  assume "plainKey key"
  then show "replaceLoop L ((key, v) # rest) u
          = replaceLoop L rest (replaceAll (CHR '':'' # key) (encodeURIComponent v) u)"
    by (simp add: replaceOne_def)
next
  assume "\<not> sublist (CHR '':'' # key) u"
  then show "replaceAll (CHR '':'' # key) w u = u"
    by (rule replaceAll_absent)
next
  assume "\<not> sublist (CHR '':'' # key) (xs @ butlast (CHR '':'' # key))"
  then show "replaceAll (CHR '':'' # key) w (xs @ (CHR '':'' # key) @ ys)
          = xs @ w @ replaceAll (CHR '':'' # key) w ys"
    by (intro replaceAll_first) simp_all
qed

theorem url_composition_witness:
  "baseUrl versioned_service = Some ''https://api.test/:v''
   \<and> url get_user_v = ''/users/:id''
   \<and> url (joinBases stub_libs versioned_service get_user_v) = ''https://api.test/:v/users/:id''
   \<and> resolved_url stub_libs versioned_service get_user_v = Some ''https://api.test/2/users/a%20b''"
proof -
  have b: "baseUrl versioned_service = Some ''https://api.test/:v''"
    by (simp add: eval_defs)
  have j: "url (joinBases stub_libs versioned_service get_user_v) = ''https://api.test/:v'' @ url get_user_v"
    by (rule url_composition[THEN conjunct1, THEN mp, OF b])
  obtain r where tp: "transformParams stub_libs versioned_service get_user_v = Inr r"
    using transformParams_plain[of get_user_v stub_libs versioned_service]
    by (auto simp: eval_defs)
  have "replaceLoop stub_libs
          (case replacements get_user_v of Some rs \<Rightarrow> rs | None \<Rightarrow> [])
          (url (joinBases stub_libs versioned_service get_user_v)) = Inr (url r)"
    by (rule url_composition[THEN conjunct2, THEN conjunct1, THEN mp, OF tp])
  then have "url r = ''https://api.test/2/users/a%20b''"
    unfolding j by (simp add: replaceOne_def eval_defs)
  with tp b j show ?thesis
    by (simp add: resolved_url_def get_user_v_def get_user_def)
qed

text \<open>
  Claim C4 as stated fails: the marker \<open>:xb\<close> does not occur in the concatenated url
  \<open>https://api.test/:x:a\<close>, yet the key \<open>xb\<close> is not ignored. The key \<open>a\<close> is substituted
  first and leaves \<open>https://api.test/:xb\<close>, in which \<open>xb\<close> then finds its marker: the
  result differs from the one without the key \<open>xb\<close>.
\<close>

theorem url_composition_counterexample:
  "\<not> sublist '':xb'' (''https://api.test'' @ url chained_markers)
   \<and> replacements chained_markers = Some [(''a'', ''b''), (''xb'', ''c'')]
   \<and> replacements chained_markers_first = Some [(''a'', ''b'')]
   \<and> resolved_url stub_libs api_service chained_markers = Some ''https://api.test/c''
   \<and> resolved_url stub_libs api_service chained_markers_first = Some ''https://api.test/:xb''"
  by (simp add: resolved_url_def transformParams_def joinBases_def stringifyForm_def
        applyReplacements_def replaceOne_def Let_def sublist_code(3) eval_defs)

text \<open>
  Claim C5. When the descriptor has a form, the composed body is the string
  \<open>qs.stringify\<close> gives for the form merged with the base data, and the composed header
  \<open>content-type\<close> is \<open>application/x-www-form-urlencoded\<close>, whatever the descriptor's or
  the base headers gave under that name; and such a composition does succeed when the
  replacement keys have no regular-expression metacharacters.
\<close>

theorem form_is_stringified:
  "(form p = Some f \<and> transformParams L this p = Inr r \<longrightarrow>
      data r = Some (Str (qs_stringify L (case baseData this of Some bd \<Rightarrow> bd ++ f | None \<Rightarrow> f)))
      \<and> (\<exists>h. headers r = Some h \<and> h ''content-type'' = Some ''application/x-www-form-urlencoded''))
   \<and> (form p = Some f \<and>
        (case replacements p of None \<Rightarrow> True | Some rs \<Rightarrow> list_all (\<lambda>kv. plainKey (fst kv)) rs) \<longrightarrow>
      (\<exists>r. transformParams L this p = Inr r))"
proof (intro conjI impI)
  assume h: "form p = Some f \<and> transformParams L this p = Inr r"
  then have tp: "transformParams L this p = Inr r" and f: "form p = Some f" by simp_all
  have fj: "form (joinBases L this p) = Some (case baseData this of Some bd \<Rightarrow> bd ++ f | None \<Rightarrow> f)"
    using f by (simp add: joinBases_form split: option.splits)
  show "data r = Some (Str (qs_stringify L (case baseData this of Some bd \<Rightarrow> bd ++ f | None \<Rightarrow> f)))"
    using transformParams_Inr(3)[OF tp] fj by simp
  show "\<exists>h. headers r = Some h \<and> h ''content-type'' = Some ''application/x-www-form-urlencoded''"
    using transformParams_Inr(2)[OF tp] f by (simp add: joinBases_headers)
next
  assume "form p = Some f \<and>
        (case replacements p of None \<Rightarrow> True | Some rs \<Rightarrow> list_all (\<lambda>kv. plainKey (fst kv)) rs)"
  then show "\<exists>r. transformParams L this p = Inr r"
    using transformParams_plain[of p L this] by simp
qed

theorem form_is_stringified_witness:
  "lookup_in (form post_form) ''user'' = Some ''u''
   \<and> lookup_in (headers post_form) ''content-type'' = Some ''application/json''
   \<and> baseHeaders form_service ''content-type'' = Some ''text/plain''
   \<and> resolved_data stub_libs form_service post_form =
       Some (Str (qs_stringify stub_libs
              ([''token'' \<mapsto> ''t'', ''user'' \<mapsto> ''base''] ++ [''user'' \<mapsto> ''u''])))
   \<and> lookup_in (resolved_headers stub_libs form_service post_form) ''content-type''
       = Some ''application/x-www-form-urlencoded''"
proof -
  have f: "form post_form = Some [''user'' \<mapsto> ''u'']"
    by (simp add: post_form_def)
  have bd: "baseData form_service = Some [''token'' \<mapsto> ''t'', ''user'' \<mapsto> ''base'']"
    by (simp add: form_service_def setupInstance_def api_options_def)
  obtain r where tp: "transformParams stub_libs form_service post_form = Inr r"
    using form_is_stringified[where p = post_form and L = stub_libs and this = form_service,
        THEN conjunct2, THEN mp]
    by (auto simp: post_form_def)
  from form_is_stringified[THEN conjunct1, THEN mp, OF conjI[OF f tp]]
  obtain h where d: "data r = Some (Str (qs_stringify stub_libs
        (case baseData form_service of Some bd \<Rightarrow> bd ++ [''user'' \<mapsto> ''u''] | None \<Rightarrow> [''user'' \<mapsto> ''u''])))"
    and h: "headers r = Some h" "h ''content-type'' = Some ''application/x-www-form-urlencoded''"
    by blast
  from d bd tp have "resolved_data stub_libs form_service post_form =
       Some (Str (qs_stringify stub_libs
              ([''token'' \<mapsto> ''t'', ''user'' \<mapsto> ''base''] ++ [''user'' \<mapsto> ''u''])))"
    by (simp add: resolved_data_def)
  moreover from h tp have "lookup_in (resolved_headers stub_libs form_service post_form) ''content-type''
       = Some ''application/x-www-form-urlencoded''"
    by (simp add: resolved_headers_def lookup_in_def)
  ultimately show ?thesis
    by (simp add: lookup_in_def post_form_def form_service_def setupInstance_def api_options_def)
qed

text \<open>
  Claim C6. A service set up without \<open>defaultValidator\<close> validates with \<open>status < 400\<close>.
  On such a service, a call without \<open>validateStatus\<close> whose transport answers with a
  status of 400 or more (404 in particular) raises the error with the prefix
  \<open>Request failed\<close>, carrying the status, headers and data of the response.
\<close>

theorem request_default_validator:
  "(o_defaultValidator opts = None \<longrightarrow> defaultValidator (setupInstance D ua opts) s = (s < 400))
   \<and> (o_defaultValidator opts = None \<and> validateStatus p = None \<and>
        transformParams L (setupInstance D ua opts) (withTimeout (setupInstance D ua opts) p) = Inr p1 \<and>
        net p1 = Responded res \<and> 400 \<le> res_status res \<longrightarrow>
        request L (Some (setupInstance D ua opts)) net p =
          ([p1], Inl (InternalServerError_object
                       \<lparr> err_message = ''Request failed: '' @ http_method p @ '' '' @ url p,
                         err_config = withTimeout (setupInstance D ua opts) p,
                         err_status = Some (res_status res),
                         err_headers = Some (res_headers res),
                         err_data = Some (res_data res) \<rparr>)))"
proof (intro conjI impI)
  assume "o_defaultValidator opts = None"
  then show "defaultValidator (setupInstance D ua opts) s = (s < 400)"
    by (simp add: setupInstance_def)
next
  let ?svc = "setupInstance D ua opts"
  assume h: "o_defaultValidator opts = None \<and> validateStatus p = None \<and>
        transformParams L ?svc (withTimeout ?svc p) = Inr p1 \<and>
        net p1 = Responded res \<and> 400 \<le> res_status res"
  then have dv: "defaultValidator ?svc = (\<lambda>s. s < 400)"
    by (simp add: setupInstance_def)
  from h dv have "request L (Some ?svc) net p =
      ([p1], Inl (InternalServerError_object (requestError ''Request failed'' (withTimeout ?svc p) (Some res))))"
    by (intro request_classified) (simp_all add: classify_def)
  then show "request L (Some ?svc) net p =
          ([p1], Inl (InternalServerError_object
                       \<lparr> err_message = ''Request failed: '' @ http_method p @ '' '' @ url p,
                         err_config = withTimeout ?svc p,
                         err_status = Some (res_status res),
                         err_headers = Some (res_headers res),
                         err_data = Some (res_data res) \<rparr>))"
    by (simp add: requestError_def withTimeout_def)
qed

theorem request_default_validator_witness:
  "o_defaultValidator api_options = None \<and> validateStatus get_user = None
   \<and> res_status not_found = 404
   \<and> request stub_libs (Some api_service) net_404 get_user =
       ([get_user_resolved],
        Inl (InternalServerError_object
              \<lparr> err_message = ''Request failed: GET /users/:id'',
                err_config = withTimeout api_service get_user,
                err_status = Some 404,
                err_headers = Some (res_headers not_found),
                err_data = Some ''no such user'' \<rparr>))"
proof -
  have "request stub_libs (Some (setupInstance 60000 ''agent/1'' api_options)) net_404 get_user =
       ([get_user_resolved],
        Inl (InternalServerError_object
              \<lparr> err_message = ''Request failed: '' @ http_method get_user @ '' '' @ url get_user,
                err_config = withTimeout (setupInstance 60000 ''agent/1'' api_options) get_user,
                err_status = Some (res_status not_found),
                err_headers = Some (res_headers not_found),
                err_data = Some (res_data not_found) \<rparr>))"
    by (rule request_default_validator[THEN conjunct2, THEN mp])
       (simp add: get_user_composed[unfolded api_service_def] net_404_def,
        simp add: api_options_def get_user_def not_found_def)
  then show ?thesis
    by (simp add: api_service_def[symmetric]) (simp add: api_options_def get_user_def not_found_def)
qed

text \<open>
  Claim C7, as the code has it. A composition whose replacement keys have no
  regular-expression metacharacters succeeds, and in the composed request: the headers
  are the base headers overridden by the descriptor's, except that with a form the
  header \<open>content-type\<close> is the form's; \<open>params\<close> and \<open>form\<close> are each the base data
  overridden by the descriptor's when base data is set and the descriptor has them,
  absent when it has not, and unchanged without base data; \<open>data\<close> likewise when the
  descriptor has no form, and the stringified merged form when it has one.
\<close>

theorem bases_are_merged:
  "((case replacements p of None \<Rightarrow> True | Some rs \<Rightarrow> list_all (\<lambda>kv. plainKey (fst kv)) rs) \<longrightarrow>
      (\<exists>r. transformParams L this p = Inr r))
   \<and> (transformParams L this p = Inr r \<longrightarrow>
        (\<exists>hm. headers r = Some hm \<and>
           (\<forall>k. hm k = (if form p \<noteq> None \<and> k = ''content-type''
                         then Some ''application/x-www-form-urlencoded''
                         else case (case headers p of Some h \<Rightarrow> h k | None \<Rightarrow> None) of
                                Some v \<Rightarrow> Some v
                              | None \<Rightarrow> baseHeaders this k)))
        \<and> params r = (case baseData this of Some bd \<Rightarrow> map_option (\<lambda>q. bd ++ q) (params p) | None \<Rightarrow> params p)
        \<and> form r = (case baseData this of Some bd \<Rightarrow> map_option (\<lambda>f. bd ++ f) (form p) | None \<Rightarrow> form p)
        \<and> (form p = None \<longrightarrow>
             data r = (case baseData this of Some bd \<Rightarrow> map_option (mergeData L bd) (data p) | None \<Rightarrow> data p))
        \<and> (\<forall>f. form r = Some f \<longrightarrow> data r = Some (Str (qs_stringify L f))))
   \<and> mergeData L bd (Obj d) = Obj (bd ++ d)
   \<and> (bd ++ d) k = (case d k of Some v \<Rightarrow> Some v | None \<Rightarrow> bd k)"
proof (intro conjI impI allI)
  assume "case replacements p of None \<Rightarrow> True | Some rs \<Rightarrow> list_all (\<lambda>kv. plainKey (fst kv)) rs"
  then show "\<exists>r. transformParams L this p = Inr r"
    by (rule transformParams_plain)
next
  assume tp: "transformParams L this p = Inr r"
  show "\<exists>hm. headers r = Some hm \<and>
           (\<forall>k. hm k = (if form p \<noteq> None \<and> k = ''content-type''
                         then Some ''application/x-www-form-urlencoded''
                         else case (case headers p of Some h \<Rightarrow> h k | None \<Rightarrow> None) of
                                Some v \<Rightarrow> Some v
                              | None \<Rightarrow> baseHeaders this k))"
    by (rule transformParams_headers[OF tp])
  show "params r = (case baseData this of Some bd \<Rightarrow> map_option (\<lambda>q. bd ++ q) (params p) | None \<Rightarrow> params p)"
    using transformParams_Inr(5)[OF tp] by (simp add: joinBases_params)
  show "form r = (case baseData this of Some bd \<Rightarrow> map_option (\<lambda>f. bd ++ f) (form p) | None \<Rightarrow> form p)"
    using transformParams_Inr(4)[OF tp] by (simp add: joinBases_form)
next
  assume tp: "transformParams L this p = Inr r" and f: "form p = None"
  then have "form (joinBases L this p) = None"
    by (simp add: joinBases_form split: option.splits)
  then show "data r = (case baseData this of Some bd \<Rightarrow> map_option (mergeData L bd) (data p) | None \<Rightarrow> data p)"
    using transformParams_Inr(3)[OF tp] by (simp add: joinBases_data)
next
  fix f
  assume tp: "transformParams L this p = Inr r" and f: "form r = Some f"
  then have "form (joinBases L this p) = Some f"
    using transformParams_Inr(4)[OF tp] by simp
  then show "data r = Some (Str (qs_stringify L f))"
    using transformParams_Inr(3)[OF tp] by simp
next
  show "mergeData L bd (Obj d) = Obj (bd ++ d)"
    by (simp add: mergeData_def)
  show "(bd ++ d) k = (case d k of Some v \<Rightarrow> Some v | None \<Rightarrow> bd k)"
    by (simp add: map_add_def split: option.splits)
qed

theorem bases_are_merged_witness:
  "baseData form_service = Some [''token'' \<mapsto> ''t'', ''user'' \<mapsto> ''base'']
   \<and> data post_json = Some (Obj [''user'' \<mapsto> ''u''])
   \<and> resolved_data stub_libs form_service post_json
       = Some (Obj ([''token'' \<mapsto> ''t'', ''user'' \<mapsto> ''base''] ++ [''user'' \<mapsto> ''u'']))
   \<and> ([''token'' \<mapsto> ''t'', ''user'' \<mapsto> ''base''] ++ [''user'' \<mapsto> ''u'']) ''user'' = Some ''u''
   \<and> ([''token'' \<mapsto> ''t'', ''user'' \<mapsto> ''base''] ++ [''user'' \<mapsto> ''u'']) ''token'' = Some ''t''
   \<and> resolved_params stub_libs form_service post_json = None
   \<and> resolved_form stub_libs form_service post_json = None
   \<and> lookup_in (resolved_headers stub_libs form_service post_json) ''accept'' = Some ''application/json''
   \<and> lookup_in (resolved_headers stub_libs form_service post_json) ''content-type'' = Some ''text/plain''
   \<and> resolved_form stub_libs form_service post_form
       = Some ([''token'' \<mapsto> ''t'', ''user'' \<mapsto> ''base''] ++ [''user'' \<mapsto> ''u''])
   \<and> resolved_data stub_libs form_service post_form
       = Some (Str (qs_stringify stub_libs
                     ([''token'' \<mapsto> ''t'', ''user'' \<mapsto> ''base''] ++ [''user'' \<mapsto> ''u''])))
   \<and> lookup_in (resolved_headers stub_libs form_service post_form) ''accept'' = Some ''*/*''"
proof -
  have bd: "baseData form_service = Some [''token'' \<mapsto> ''t'', ''user'' \<mapsto> ''base'']"
    and bh: "baseHeaders form_service ''accept'' = Some ''*/*''"
      "baseHeaders form_service ''content-type'' = Some ''text/plain''"
    by (simp_all add: form_service_def setupInstance_def api_options_def)
  note m = bases_are_merged[where L = stub_libs and this = form_service and p = post_json]
  obtain r where tp: "transformParams stub_libs form_service post_json = Inr r"
    using m[THEN conjunct1, THEN mp] by (auto simp: post_json_def)
  note c = m[THEN conjunct2, THEN conjunct1, THEN mp, OF tp]
  from c obtain hm where hm: "headers r = Some hm"
    "\<And>k. hm k = (if form post_json \<noteq> None \<and> k = ''content-type''
                         then Some ''application/x-www-form-urlencoded''
                         else case (case headers post_json of Some h \<Rightarrow> h k | None \<Rightarrow> None) of
                                Some v \<Rightarrow> Some v
                              | None \<Rightarrow> baseHeaders form_service k)"
    by blast
  from c have pr: "params r = None" and fr: "form r = None"
    and dr: "data r = Some (mergeData stub_libs [''token'' \<mapsto> ''t'', ''user'' \<mapsto> ''base''] (Obj [''user'' \<mapsto> ''u'']))"
    by (simp_all add: bd post_json_def)
  have md: "mergeData stub_libs [''token'' \<mapsto> ''t'', ''user'' \<mapsto> ''base''] (Obj [''user'' \<mapsto> ''u''])
      = Obj ([''token'' \<mapsto> ''t'', ''user'' \<mapsto> ''base''] ++ [''user'' \<mapsto> ''u''])"
    by (rule m[THEN conjunct2, THEN conjunct2, THEN conjunct1])
  have h1: "hm ''accept'' = Some ''application/json''" and h2: "hm ''content-type'' = Some ''text/plain''"
    using hm(2)[of "''accept''"] hm(2)[of "''content-type''"] bh by (simp_all add: post_json_def)
  note m' = bases_are_merged[where L = stub_libs and this = form_service and p = post_form]
  obtain r' where tp': "transformParams stub_libs form_service post_form = Inr r'"
    using m'[THEN conjunct1, THEN mp] by (auto simp: post_form_def)
  note c' = m'[THEN conjunct2, THEN conjunct1, THEN mp, OF tp']
  from c' obtain hm' where hm': "headers r' = Some hm'"
    "\<And>k. hm' k = (if form post_form \<noteq> None \<and> k = ''content-type''
                         then Some ''application/x-www-form-urlencoded''
                         else case (case headers post_form of Some h \<Rightarrow> h k | None \<Rightarrow> None) of
                                Some v \<Rightarrow> Some v
                              | None \<Rightarrow> baseHeaders form_service k)"
    by blast
  from c' have fr': "form r' = Some ([''token'' \<mapsto> ''t'', ''user'' \<mapsto> ''base''] ++ [''user'' \<mapsto> ''u''])"
    by (simp add: bd post_form_def)
  with c' have dr': "data r' = Some (Str (qs_stringify stub_libs
                     ([''token'' \<mapsto> ''t'', ''user'' \<mapsto> ''base''] ++ [''user'' \<mapsto> ''u''])))"
    by blast
  have h3: "hm' ''accept'' = Some ''*/*''"
    using hm'(2)[of "''accept''"] bh by (simp add: post_form_def)
  have ev: "([''token'' \<mapsto> ''t'', ''user'' \<mapsto> ''base''] ++ [''user'' \<mapsto> ''u'']) ''user'' = Some ''u''"
    "([''token'' \<mapsto> ''t'', ''user'' \<mapsto> ''base''] ++ [''user'' \<mapsto> ''u'']) ''token'' = Some ''t''"
    by simp_all
  have 1: "resolved_data stub_libs form_service post_json
       = Some (Obj ([''token'' \<mapsto> ''t'', ''user'' \<mapsto> ''base''] ++ [''user'' \<mapsto> ''u'']))"
    using tp dr md by (simp add: resolved_data_def)
  have 2: "resolved_params stub_libs form_service post_json = None"
    "resolved_form stub_libs form_service post_json = None"
    using tp pr fr by (simp_all add: resolved_params_def resolved_form_def)
  have 3: "lookup_in (resolved_headers stub_libs form_service post_json) ''accept'' = Some ''application/json''"
    "lookup_in (resolved_headers stub_libs form_service post_json) ''content-type'' = Some ''text/plain''"
    using tp hm(1) h1 h2 by (simp_all add: resolved_headers_def lookup_in_def)
  have 4: "resolved_form stub_libs form_service post_form
       = Some ([''token'' \<mapsto> ''t'', ''user'' \<mapsto> ''base''] ++ [''user'' \<mapsto> ''u''])"
    using tp' fr' by (simp add: resolved_form_def)
  have 5: "resolved_data stub_libs form_service post_form
       = Some (Str (qs_stringify stub_libs
                     ([''token'' \<mapsto> ''t'', ''user'' \<mapsto> ''base''] ++ [''user'' \<mapsto> ''u''])))"
    using tp' dr' by (simp add: resolved_data_def)
  have 6: "lookup_in (resolved_headers stub_libs form_service post_form) ''accept'' = Some ''*/*''"
    using tp' hm'(1) h3 by (simp add: resolved_headers_def lookup_in_def)
  have 7: "data post_json = Some (Obj [''user'' \<mapsto> ''u''])"
    by (simp add: post_json_def)
  show ?thesis
    using bd 7 1 ev 2 3 4 5 6 by (intro conjI)
qed

text \<open>
  Claim C7 as stated fails when the descriptor has a form: the descriptor's
  \<open>content-type\<close> does not win the collision with the base header (the composed value is
  neither of the two), and \<open>data\<close>, absent in the descriptor, is present in the composed
  request.
\<close>

theorem bases_are_merged_counterexample:
  "lookup_in (headers post_form) ''content-type'' = Some ''application/json''
   \<and> baseHeaders form_service ''content-type'' = Some ''text/plain''
   \<and> lookup_in (resolved_headers stub_libs form_service post_form) ''content-type''
       = Some ''application/x-www-form-urlencoded''
   \<and> data post_form = None
   \<and> resolved_data stub_libs form_service post_form = Some (Str ''a=1'')"
proof -
  obtain r where tp: "transformParams stub_libs form_service post_form = Inr r"
    using transformParams_plain[of post_form stub_libs form_service] by (auto simp: post_form_def)
  from transformParams_headers[OF tp] obtain hm where "headers r = Some hm"
    and "hm ''content-type'' = Some ''application/x-www-form-urlencoded''"
    by (auto simp: post_form_def)
  moreover have "form (joinBases stub_libs form_service post_form) \<noteq> None"
    by (simp add: joinBases_form post_form_def split: option.splits)
  then have "data r = Some (Str ''a=1'')"
    using transformParams_Inr(3)[OF tp]
    by (auto simp: stub_libs_def stub_stringify_def split: option.splits)
  ultimately show ?thesis
    using tp
    by (simp add: resolved_data_def resolved_headers_def lookup_in_def post_form_def
          form_service_def setupInstance_def api_options_def)
qed

text \<open>
  Claim C8. On a service on which \<open>setupInstance\<close> has not run, \<open>request\<close> and the four
  shorthands raise the not-configured error for every descriptor, every library and
  every transport; nothing is handed to the transport.
\<close>

theorem request_not_configured:
  "request L None net p = ([], Inl NotConfigured)
   \<and> get L None net u p = ([], Inl NotConfigured)
   \<and> post L None net u p = ([], Inl NotConfigured)
   \<and> put L None net u p = ([], Inl NotConfigured)
   \<and> delete L None net u p = ([], Inl NotConfigured)"
  by (simp add: request_def get_def post_def put_def delete_def NotConfigured_def)

theorem request_not_configured_witness:
  "request stub_libs None net_404 get_user = ([], Inl NotConfigured)
   \<and> get stub_libs None net_404 ''/users/1'' get_user = ([], Inl NotConfigured)"
  using request_not_configured[of stub_libs net_404 get_user "''/users/1''"] by simp




end
